theory Spec2Isabelle
  imports Main "HOL-Library.Word"
begin

section \<open>Machine integers and strings\<close>

text \<open>
  Go's \<open>int64\<close> values that are only compared, divided or copied are modelled by
  their mathematical value in \<open>int\<close>; where the source adds, subtracts or multiplies
  them, the two's complement wrap-around is written out with \<open>wrap64\<close>. Click counts,
  which are added to each other, are 64-bit words.
\<close>

definition wrap64 :: "int \<Rightarrow> int" where
  "wrap64 x = (x + 2 ^ 63) mod 2 ^ 64 - 2 ^ 63"

type_synonym int64 = "64 word"

text \<open>
  A Go string is a sequence of bytes (\<open>string\<close>, one \<open>char\<close> per byte). A
  \<open>for _, c := range s\<close> loop does not visit bytes but runes: it decodes UTF-8, yields
  \<open>U+FFFD\<close> for a byte that starts no valid sequence and then advances by one byte.
\<close>

type_synonym rune = int

definition RuneError :: rune where
  "RuneError = 0xFFFD"

definition decodeRuneInString :: "string \<Rightarrow> rune \<times> nat" where
  "decodeRuneInString s =
     (case map of_char s :: nat list of
        [] \<Rightarrow> (RuneError, 0)
      | s0 # rest \<Rightarrow>
          if s0 < 0x80 then (int s0, 1)
          else if s0 < 0xC2 \<or> 0xF4 < s0 then (RuneError, 1)
          else
            let sz = (if s0 < 0xE0 then 2 else if s0 < 0xF0 then 3 else 4) :: nat;
                lo = (if s0 = 0xE0 then 0xA0 else if s0 = 0xF0 then 0x90 else 0x80) :: nat;
                hi = (if s0 = 0xED then 0x9F else if s0 = 0xF4 then 0x8F else 0xBF) :: nat
            in if length rest + 1 < sz then (RuneError, 1)
               else
                 let s1 = rest ! 0 in
                 if s1 < lo \<or> hi < s1 then (RuneError, 1)
                 else if sz \<le> 2 then (int ((s0 mod 32) * 64 + s1 mod 64), 2)
                 else
                   let s2 = rest ! 1 in
                   if s2 < 0x80 \<or> 0xBF < s2 then (RuneError, 1)
                   else if sz \<le> 3
                     then (int ((s0 mod 16) * 4096 + (s1 mod 64) * 64 + s2 mod 64), 3)
                   else
                     let s3 = rest ! 2 in
                     if s3 < 0x80 \<or> 0xBF < s3 then (RuneError, 1)
                     else (int ((s0 mod 8) * 262144 + (s1 mod 64) * 4096
                                 + (s2 mod 64) * 64 + s3 mod 64), 4))"

lemma decodeRuneInString_width: "s \<noteq> [] \<Longrightarrow> 0 < snd (decodeRuneInString s)"
  by (cases s) (simp_all add: decodeRuneInString_def Let_def)

lemma decodeRuneInString_ascii:
  "(of_char c :: nat) < 128 \<Longrightarrow> decodeRuneInString (c # s) = (int (of_char c), 1)"
  by (simp add: decodeRuneInString_def)

function rangeRunes :: "string \<Rightarrow> rune list" where
  "rangeRunes s =
     (if s = [] then []
      else fst (decodeRuneInString s) # rangeRunes (drop (snd (decodeRuneInString s)) s))"
  by pat_completeness auto
termination
  by (relation "measure length") (auto simp: decodeRuneInString_width)

declare rangeRunes.simps [simp del]

lemma rangeRunes_Nil [simp]: "rangeRunes [] = []"
  by (simp add: rangeRunes.simps)

lemma rangeRunes_ascii [simp]:
  "(of_char c :: nat) < 128 \<Longrightarrow> rangeRunes (c # s) = int (of_char c) # rangeRunes s"
  by (subst rangeRunes.simps) (simp add: decodeRuneInString_ascii)

section \<open>Short code generator (service package)\<close>

definition base62Chars :: string where
  "base62Chars = ''0123456789ABCDEFGHIJKLMNOPQRSTUVWXYZabcdefghijklmnopqrstuvwxyz''"

text \<open>The digit loop of \<open>encodeBase62\<close>: \<open>result\<close> is the string builder.\<close>

function encodeLoop :: "int \<Rightarrow> string \<Rightarrow> string" where
  "encodeLoop num result =
     (if num > 0
      then encodeLoop (num div 62) (result @ [base62Chars ! nat (num mod 62)])
      else result)"
  by pat_completeness auto
termination
  by (relation "measure (\<lambda>(num, result). nat num)") auto

declare encodeLoop.simps [simp del]

text \<open>The in-place reversal loop \<open>for i, j := 0, len(runes)-1; i < j; i, j = i+1, j-1\<close>.\<close>

function reverseRunes :: "int \<Rightarrow> int \<Rightarrow> 'a list \<Rightarrow> 'a list" where
  "reverseRunes i j runes =
     (if i < j
      then reverseRunes (i + 1) (j - 1)
             ((runes[nat i := runes ! nat j])[nat j := runes ! nat i])
      else runes)"
  by pat_completeness auto
termination
  by (relation "measure (\<lambda>(i, j, runes). nat (j - i))") auto

declare reverseRunes.simps [simp del]

definition encodeBase62 :: "int \<Rightarrow> string" where
  "encodeBase62 num =
     (if num = 0 then [base62Chars ! 0]
      else let runes = encodeLoop num []
           in reverseRunes 0 (int (length runes) - 1) runes)"

definition decodeStep :: "int \<Rightarrow> rune \<Rightarrow> int" where
  "decodeStep num0 c =
     (let num = wrap64 (num0 * 62)
      in if c \<ge> 48 \<and> c \<le> 57 then wrap64 (num + (c - 48))
         else if c \<ge> 65 \<and> c \<le> 90 then wrap64 (num + (c - 65 + 10))
         else if c \<ge> 97 \<and> c \<le> 122 then wrap64 (num + (c - 97 + 36))
         else num)"

definition decodeBase62 :: "string \<Rightarrow> int" where
  "decodeBase62 s = foldl decodeStep 0 (rangeRunes s)"

text \<open>The padding loop of \<open>CreateShortURL\<close>; \<open>n\<close> is \<open>cfg.URL.ShortCodeLength\<close>.\<close>

function padShortCode :: "int \<Rightarrow> string \<Rightarrow> string" where
  "padShortCode n shortCode =
     (if int (length shortCode) < n then padShortCode n (CHR ''0'' # shortCode)
      else shortCode)"
  by pat_completeness auto
termination
  by (relation "measure (\<lambda>(n, shortCode). nat (n - int (length shortCode)))") auto

declare padShortCode.simps [simp del]


text \<open>
  The digits that the loop of \<open>encodeBase62\<close> writes, least significant first; used
  to reason about \<open>encodeLoop\<close>.
\<close>

function digitsLSB :: "int \<Rightarrow> nat list" where
  "digitsLSB num = (if num > 0 then nat (num mod 62) # digitsLSB (num div 62) else [])"
  by pat_completeness auto
termination
  by (relation "measure nat") auto

declare digitsLSB.simps [simp del]

section \<open>Errors, time and the URL record (model package)\<close>

text \<open>
  \<open>ErrURLNotFound\<close> and \<open>ErrURLExpired\<close> are the two sentinel errors of the
  repository package. \<open>DriverError\<close> is any error that the PostgreSQL or Redis client
  returns other than "no rows" and "nil reply", \<open>LibError\<close> an error made by the
  standard library or by \<open>fmt.Errorf\<close> without a cause, and \<open>Wrapped msg e\<close> is
  \<open>fmt.Errorf(msg + ": %w", e)\<close>.
\<close>

datatype error =
    ErrURLNotFound
  | ErrURLExpired
  | DriverError string
  | LibError string
  | Wrapped string error

text \<open>
  Instants are nanoseconds since the Unix epoch and durations are nanoseconds, as in
  \<open>time.Time.UnixNano\<close> and \<open>time.Duration\<close>. A function that reads the clock
  takes the reading as its argument \<open>now\<close>.
\<close>

type_synonym time = int
type_synonym duration = int

record URL =
  ID :: int
  ShortCode :: string
  URLHash :: string
  OriginalURL :: string
  ClickCount :: int64
  CreatedAt :: time
  UpdatedAt :: time
  ExpiresAt :: "time option"
  IsActive :: bool

definition IsExpired :: "time \<Rightarrow> URL \<Rightarrow> bool" where
  "IsExpired now u = (case ExpiresAt u of None \<Rightarrow> False | Some t \<Rightarrow> now > t)"

definition IsValid :: "time \<Rightarrow> URL \<Rightarrow> bool" where
  "IsValid now u = (IsActive u \<and> \<not> IsExpired now u)"

record CreateURLRequest =
  req_URL :: string
  req_ExpiresIn :: string

text \<open>
  The responses carry \<open>ExpiresAt\<close> as an RFC 3339 string that is left empty when the
  record has no expiry; the model keeps the instant itself.
\<close>

record CreateURLResponse =
  cr_ShortCode :: string
  cr_ShortURL :: string
  cr_OriginalURL :: string
  cr_ExpiresAt :: "time option"

record URLStatsResponse =
  st_ShortCode :: string
  st_OriginalURL :: string
  st_ClickCount :: int64
  st_CreatedAt :: time
  st_ExpiresAt :: "time option"
  st_IsActive :: bool

text \<open>A line written with \<open>log.Printf\<close>: the format string and its arguments.\<close>

datatype logarg = S string | I int | E error

type_synonym logline = "string \<times> logarg list"

definition in_int64 :: "int \<Rightarrow> bool" where
  "in_int64 x = (- (2 ^ 63) \<le> x \<and> x < 2 ^ 63)"

section \<open>Durable Store (PostgresRepository)\<close>

text \<open>
  The table \<open>urls\<close> of \<open>migrations/001_init.sql\<close>: a list of rows and the next
  value of the \<open>BIGSERIAL\<close> sequence. \<open>id\<close> is the primary key, \<open>short_code\<close>
  (\<open>VARCHAR(11)\<close>) and \<open>url_hash\<close> are \<open>UNIQUE\<close>, \<open>click_count\<close> is a
  \<open>BIGINT\<close> (an addition that leaves its range is an error, not a wrap-around), and a
  trigger sets \<open>updated_at\<close> on every update. Instants are stored as they are
  given. The first argument \<open>down\<close> of each operation says whether the statement
  fails in the driver (connection lost, deadline exceeded); the statement then has no
  effect. Both repositories have methods called \<open>IncrementClickCountBy\<close> and the
  service has its own \<open>GetURLStats\<close>; the methods of the repositories carry the
  prefix \<open>pg\<close> or \<open>redis\<close> where the names would clash.
\<close>

record pg_state =
  rows :: "URL list"
  nextId :: int

definition CreateURL ::
  "bool \<Rightarrow> time \<Rightarrow> pg_state \<Rightarrow> string \<Rightarrow> string \<Rightarrow> time option \<Rightarrow> (error + URL) \<times> pg_state" where
  "CreateURL down now pg urlHash originalURL expiresAt =
     (if down then (Inl (Wrapped ''failed to create url'' (DriverError ''connection'')), pg)
      else
        let newId = nextId pg;
            pg' = pg\<lparr>nextId := newId + 1\<rparr>
        in if \<not> in_int64 newId
           then (Inl (Wrapped ''failed to create url'' (DriverError ''sequence'')), pg)
           else if \<exists>r \<in> set (rows pg).
                     ID r = newId \<or> ShortCode r = ''temp'' \<or> URLHash r = urlHash
           then (Inl (Wrapped ''failed to create url'' (DriverError ''unique_violation'')), pg')
           else
             let row = \<lparr>ID = newId, ShortCode = ''temp'', URLHash = urlHash,
                        OriginalURL = originalURL, ClickCount = 0, CreatedAt = now,
                        UpdatedAt = now, ExpiresAt = expiresAt, IsActive = True\<rparr>
             in (Inr (row\<lparr>ShortCode := []\<rparr>), pg'\<lparr>rows := rows pg @ [row]\<rparr>))"

definition GetURLByHash :: "bool \<Rightarrow> pg_state \<Rightarrow> string \<Rightarrow> error + URL option" where
  "GetURLByHash down pg urlHash =
     (if down then Inl (Wrapped ''failed to get url by hash'' (DriverError ''connection''))
      else Inr (find (\<lambda>r. URLHash r = urlHash) (rows pg)))"

definition UpdateShortCode ::
  "bool \<Rightarrow> time \<Rightarrow> pg_state \<Rightarrow> int \<Rightarrow> string \<Rightarrow> error option \<times> pg_state" where
  "UpdateShortCode down now pg i shortCode =
     (if down then (Some (Wrapped ''failed to update short code'' (DriverError ''connection'')), pg)
      else if \<not> (\<exists>r \<in> set (rows pg). ID r = i) then (None, pg)
      else if length shortCode > 11
      then (Some (Wrapped ''failed to update short code''
                   (DriverError ''string_data_right_truncation'')), pg)
      else if \<exists>r \<in> set (rows pg). ID r \<noteq> i \<and> ShortCode r = shortCode
      then (Some (Wrapped ''failed to update short code'' (DriverError ''unique_violation'')), pg)
      else (None, pg\<lparr>rows := map (\<lambda>r. if ID r = i
                                        then r\<lparr>ShortCode := shortCode, UpdatedAt := now\<rparr>
                                        else r) (rows pg)\<rparr>))"

definition GetURLByShortCode :: "bool \<Rightarrow> pg_state \<Rightarrow> string \<Rightarrow> error + URL" where
  "GetURLByShortCode down pg shortCode =
     (if down then Inl (Wrapped ''failed to get url'' (DriverError ''connection''))
      else case find (\<lambda>r. ShortCode r = shortCode) (rows pg) of
             None \<Rightarrow> Inl ErrURLNotFound
           | Some r \<Rightarrow> Inr r)"

text \<open>
  \<open>IncrementClickCountBy\<close> of the PostgreSQL repository (batch sync):
  \<open>UPDATE urls SET click_count = click_count + $1 WHERE short_code = $2\<close>, and
  \<open>ErrURLNotFound\<close> when no row was affected.
\<close>

definition pgIncrementClickCountBy ::
  "bool \<Rightarrow> time \<Rightarrow> pg_state \<Rightarrow> string \<Rightarrow> int64 \<Rightarrow> error option \<times> pg_state" where
  "pgIncrementClickCountBy down now pg shortCode count =
     (if down
      then (Some (Wrapped ''failed to increment click count by %d'' (DriverError ''connection'')), pg)
      else if \<exists>r \<in> set (rows pg).
                ShortCode r = shortCode \<and> \<not> in_int64 (sint (ClickCount r) + sint count)
      then (Some (Wrapped ''failed to increment click count by %d''
                   (DriverError ''numeric_value_out_of_range'')), pg)
      else if \<not> (\<exists>r \<in> set (rows pg). ShortCode r = shortCode) then (Some ErrURLNotFound, pg)
      else (None, pg\<lparr>rows := map (\<lambda>r. if ShortCode r = shortCode
                                        then r\<lparr>ClickCount := ClickCount r + count,
                                                UpdatedAt := now\<rparr>
                                        else r) (rows pg)\<rparr>))"

definition pgGetURLStats :: "bool \<Rightarrow> pg_state \<Rightarrow> string \<Rightarrow> error + URL" where
  "pgGetURLStats down pg shortCode = GetURLByShortCode down pg shortCode"

section \<open>Fast Store (RedisRepository)\<close>

text \<open>
  The Redis keyspace, one map per kind of value, each keyed by the full key with its
  prefix: the JSON snapshots of URL records (the model keeps the record itself, so
  marshalling and unmarshalling do not fail), the integer counters, the sorted sets of the
  rate limiter (member and score of every entry) and the time-to-live of the keys that
  have one, as the duration that the caller hands to the client. The counters are written
  with \<open>INCR\<close> and \<open>INCRBY\<close> only, so their values are 64-bit integers and
  reading them as integers does not fail. As for the Durable Store, \<open>down\<close> says
  whether the command fails in the client; it then has no effect.
\<close>

definition urlCachePrefix :: string where
  "urlCachePrefix = ''url:''"

definition clickCountPrefix :: string where
  "clickCountPrefix = ''clicks:''"

definition urlCacheTTL :: duration where
  "urlCacheTTL = 1 * 3600000000000"

record redis_state =
  urlCache :: "string \<rightharpoonup> URL"
  counters :: "string \<rightharpoonup> int64"
  zsets :: "string \<rightharpoonup> (int \<times> int) list"
  ttls :: "string \<rightharpoonup> duration"

definition GetURL ::
  "bool \<Rightarrow> redis_state \<Rightarrow> string \<Rightarrow> (URL option \<times> error option) \<times> redis_state" where
  "GetURL down r shortCode =
     (let key = urlCachePrefix @ shortCode
      in if down
         then ((None, Some (Wrapped ''failed to get url from cache'' (DriverError ''connection''))), r)
         else case urlCache r key of
                None \<Rightarrow> ((None, None), r)
              | Some url \<Rightarrow> ((Some url, None), r\<lparr>ttls := (ttls r)(key \<mapsto> urlCacheTTL)\<rparr>))"

definition SetURL :: "bool \<Rightarrow> time \<Rightarrow> redis_state \<Rightarrow> URL \<Rightarrow> error option \<times> redis_state" where
  "SetURL down now r url =
     (let key = urlCachePrefix @ ShortCode url;
          ttl = (case ExpiresAt url of
                   None \<Rightarrow> urlCacheTTL
                 | Some t \<Rightarrow> let remaining = t - now
                            in if remaining < urlCacheTTL then remaining else urlCacheTTL)
      in if down
         then (Some (Wrapped ''failed to set url in cache'' (DriverError ''connection'')), r)
         else (None, r\<lparr>urlCache := (urlCache r)(key \<mapsto> url), ttls := (ttls r)(key \<mapsto> ttl)\<rparr>))"

text \<open>
  The server's \<open>INCRBY\<close> (and \<open>INCR\<close>, with increment 1): a missing key counts as 0,
  and an increment that would leave the 64-bit signed range is refused.
\<close>

definition INCRBY :: "redis_state \<Rightarrow> string \<Rightarrow> int64 \<Rightarrow> error option \<times> redis_state" where
  "INCRBY r key delta =
     (let old = (case counters r key of None \<Rightarrow> 0 | Some v \<Rightarrow> v)
      in if \<not> in_int64 (sint old + sint delta)
         then (Some (DriverError ''ERR increment or decrement would overflow''), r)
         else (None, r\<lparr>counters := (counters r)(key \<mapsto> old + delta)\<rparr>))"

definition redisIncrementClickCount ::
  "bool \<Rightarrow> redis_state \<Rightarrow> string \<Rightarrow> error option \<times> redis_state" where
  "redisIncrementClickCount down r shortCode =
     (let key = clickCountPrefix @ shortCode
      in if down
         then (Some (Wrapped ''failed to increment click count'' (DriverError ''connection'')), r)
         else case INCRBY r key 1 of
                (Some err, r') \<Rightarrow> (Some (Wrapped ''failed to increment click count'' err), r')
              | (None, r') \<Rightarrow> (None, r'))"

definition redisIncrementClickCountBy ::
  "bool \<Rightarrow> redis_state \<Rightarrow> string \<Rightarrow> int64 \<Rightarrow> error option \<times> redis_state" where
  "redisIncrementClickCountBy down r shortCode delta =
     (let key = clickCountPrefix @ shortCode
      in if down
         then (Some (Wrapped ''failed to increment click count by %d'' (DriverError ''connection'')), r)
         else case INCRBY r key delta of
                (Some err, r') \<Rightarrow> (Some (Wrapped ''failed to increment click count by %d'' err), r')
              | (None, r') \<Rightarrow> (None, r'))"

text \<open>
  \<open>GetClickCount\<close> and \<open>GetAndResetClickCount\<close> return a pair as in Go: the count
  (0 beside an error) and the error.
\<close>

definition GetClickCount :: "bool \<Rightarrow> redis_state \<Rightarrow> string \<Rightarrow> int64 \<times> error option" where
  "GetClickCount down r shortCode =
     (let key = clickCountPrefix @ shortCode
      in if down then (0, Some (Wrapped ''failed to get click count'' (DriverError ''connection'')))
         else case counters r key of
                None \<Rightarrow> (0, None)
              | Some count \<Rightarrow> (count, None))"

definition GetAndResetClickCount ::
  "bool \<Rightarrow> redis_state \<Rightarrow> string \<Rightarrow> (int64 \<times> error option) \<times> redis_state" where
  "GetAndResetClickCount down r shortCode =
     (let key = clickCountPrefix @ shortCode
      in if down
         then ((0, Some (Wrapped ''failed to get and reset click count''
                           (DriverError ''connection''))), r)
         else case counters r key of
                None \<Rightarrow> ((0, None), r)
              | Some count \<Rightarrow>
                  ((count, None),
                   r\<lparr>counters := (counters r)(key := None), ttls := (ttls r)(key := None)\<rparr>))"

text \<open>
  \<open>GetAllClickCountKeys\<close> iterates a \<open>SCAN\<close> with the pattern \<open>clicks:*\<close>. What
  the scan yields is the server's answer, given here as \<open>scan\<close>: \<open>None\<close> when the
  iterator ends with an error, otherwise the part after the prefix of each key it
  yielded, in order (every key that matches the pattern starts with the prefix).
\<close>

definition GetAllClickCountKeys :: "string list option \<Rightarrow> error + string list" where
  "GetAllClickCountKeys scan =
     (case scan of
        None \<Rightarrow> Inl (Wrapped ''failed to scan click count keys'' (DriverError ''connection''))
      | Some matched \<Rightarrow> Inr (map (\<lambda>c. clickCountPrefix @ c) matched))"

text \<open>\<open>key[len(clickCountPrefix):]\<close> panics when the key is shorter than the prefix.\<close>

definition ExtractShortCodeFromKey :: "string \<Rightarrow> string option" where
  "ExtractShortCodeFromKey key =
     (if length key < length clickCountPrefix then None
      else Some (drop (length clickCountPrefix) key))"

section \<open>Cache-aside resolver (ShortURLService)\<close>

text \<open>
  The configuration fields that the service reads, and the library functions that it
  calls and that are not part of the repository: the SHA-256 digest in hexadecimal,
  \<open>strings.TrimSpace\<close>, \<open>fmt.Sscanf\<close> with the verb \<open>%d\<close> and
  \<open>time.ParseDuration\<close>.
\<close>

record Config =
  BaseURL :: string
  ShortCodeLength :: int

record stdlib =
  sha256hex :: "string \<Rightarrow> string"
  TrimSpace :: "string \<Rightarrow> string"
  Sscanf_d :: "string \<Rightarrow> int option"
  ParseDuration :: "string \<Rightarrow> duration option"

record world =
  pgdb :: pg_state
  rds :: redis_state
  logs :: "logline list"

definition hashURL :: "stdlib \<Rightarrow> string \<Rightarrow> string" where
  "hashURL lib url = sha256hex lib url"

definition parseDuration :: "stdlib \<Rightarrow> string \<Rightarrow> error + duration" where
  "parseDuration lib s0 =
     (let s = TrimSpace lib s0
      in if length s = 0 then Inl (LibError ''empty duration'')
         else if s \<noteq> [] \<and> last s = CHR ''d''
         then (case Sscanf_d lib (butlast s) of
                 None \<Rightarrow> Inl (LibError ''Sscanf'')
               | Some d \<Rightarrow> Inr (wrap64 (wrap64 (d * 24) * 3600000000000)))
         else (case ParseDuration lib s of
                 None \<Rightarrow> Inl (LibError ''time: invalid duration'')
               | Some d \<Rightarrow> Inr d))"

text \<open>
  Which of the store calls of one service call fail in the client. One clock reading
  \<open>now\<close> stands for all readings of the clock during the call.
\<close>

record create_io =
  hashDown :: bool
  insertDown :: bool
  updateDown :: bool
  createCacheSetDown :: bool

record resolve_io =
  cacheGetDown :: bool
  dbGetDown :: bool
  cacheSetDown :: bool
  incrDown :: bool

record stats_io =
  statsDbDown :: bool
  statsCacheDown :: bool

definition incrementClickCount :: "bool \<Rightarrow> world \<Rightarrow> string \<Rightarrow> world" where
  "incrementClickCount down w shortCode =
     (case redisIncrementClickCount down (rds w) shortCode of
        (Some err, r') \<Rightarrow>
          w\<lparr>rds := r',
            logs := logs w @ [(''cache incr click failed: shortCode=%s err=%v'', [S shortCode, E err])]\<rparr>
      | (None, r') \<Rightarrow> w\<lparr>rds := r'\<rparr>)"

text \<open>The part of \<open>CreateShortURL\<close> after the lookup by hash found no valid record.\<close>

definition createNew ::
  "Config \<Rightarrow> stdlib \<Rightarrow> create_io \<Rightarrow> time \<Rightarrow> world \<Rightarrow> CreateURLRequest \<Rightarrow> string
     \<Rightarrow> (error + CreateURLResponse) \<times> world" where
  "createNew cfg lib io now w req urlHash =
     (case (if req_ExpiresIn req \<noteq> []
            then (case parseDuration lib (req_ExpiresIn req) of
                    Inl err \<Rightarrow> Inl (Wrapped ''invalid expires_in format'' err)
                  | Inr d \<Rightarrow> Inr (Some (now + d)))
            else Inr None) of
        Inl err \<Rightarrow> (Inl err, w)
      | Inr expiresAt \<Rightarrow>
          (case CreateURL (insertDown io) now (pgdb w) urlHash (req_URL req) expiresAt of
             (Inl err, pg1) \<Rightarrow> (Inl (Wrapped ''failed to create url'' err), w\<lparr>pgdb := pg1\<rparr>)
           | (Inr url, pg1) \<Rightarrow>
               let shortCode = padShortCode (ShortCodeLength cfg) (encodeBase62 (ID url))
               in (case UpdateShortCode (updateDown io) now pg1 (ID url) shortCode of
                     (Some err, pg2) \<Rightarrow>
                       (Inl (Wrapped ''failed to update short code'' err), w\<lparr>pgdb := pg2\<rparr>)
                   | (None, pg2) \<Rightarrow>
                       (case SetURL (createCacheSetDown io) now (rds w)
                               (url\<lparr>ShortCode := shortCode\<rparr>) of
                          (serr, r1) \<Rightarrow>
                            (Inr \<lparr>cr_ShortCode = shortCode,
                                  cr_ShortURL = BaseURL cfg @ ''/'' @ shortCode,
                                  cr_OriginalURL = req_URL req,
                                  cr_ExpiresAt = expiresAt\<rparr>,
                             w\<lparr>pgdb := pg2, rds := r1,
                               logs := logs w @
                                 (case serr of
                                    Some err \<Rightarrow> [(''cache set url failed: shortCode=%s err=%v'',
                                                  [S shortCode, E err])]
                                  | None \<Rightarrow> [])\<rparr>)))))"

definition CreateShortURL ::
  "Config \<Rightarrow> stdlib \<Rightarrow> create_io \<Rightarrow> time \<Rightarrow> world \<Rightarrow> CreateURLRequest
     \<Rightarrow> (error + CreateURLResponse) \<times> world" where
  "CreateShortURL cfg lib io now w req =
     (let urlHash = hashURL lib (req_URL req)
      in case GetURLByHash (hashDown io) (pgdb w) urlHash of
           Inl err \<Rightarrow> (Inl (Wrapped ''failed to check existing url'' err), w)
         | Inr None \<Rightarrow> createNew cfg lib io now w req urlHash
         | Inr (Some existing) \<Rightarrow>
             if IsValid now existing
             then (Inr \<lparr>cr_ShortCode = ShortCode existing,
                        cr_ShortURL = BaseURL cfg @ ''/'' @ ShortCode existing,
                        cr_OriginalURL = OriginalURL existing,
                        cr_ExpiresAt = ExpiresAt existing\<rparr>, w)
             else createNew cfg lib io now w req urlHash)"

definition GetOriginalURL ::
  "resolve_io \<Rightarrow> time \<Rightarrow> world \<Rightarrow> string \<Rightarrow> (error + string) \<times> world" where
  "GetOriginalURL io now w shortCode =
     (case GetURL (cacheGetDown io) (rds w) shortCode of
        ((cached, cerr), r1) \<Rightarrow>
          let w1 = w\<lparr>rds := r1,
                     logs := logs w @
                       (case cerr of
                          Some err \<Rightarrow> [(''cache get url failed: shortCode=%s err=%v'',
                                        [S shortCode, E err])]
                        | None \<Rightarrow> [])\<rparr>
          in case cached of
               Some url \<Rightarrow>
                 if \<not> IsValid now url then (Inl ErrURLExpired, w1)
                 else (Inr (OriginalURL url), incrementClickCount (incrDown io) w1 shortCode)
             | None \<Rightarrow>
                 (case GetURLByShortCode (dbGetDown io) (pgdb w1) shortCode of
                    Inl err \<Rightarrow> (Inl err, w1)
                  | Inr url \<Rightarrow>
                      if \<not> IsValid now url then (Inl ErrURLExpired, w1)
                      else
                        (case SetURL (cacheSetDown io) now (rds w1) url of
                           (serr, r2) \<Rightarrow>
                             let w2 = w1\<lparr>rds := r2,
                                         logs := logs w1 @
                                           (case serr of
                                              Some err \<Rightarrow>
                                                [(''cache set url failed: shortCode=%s err=%v'',
                                                  [S shortCode, E err])]
                                            | None \<Rightarrow> [])\<rparr>
                             in (Inr (OriginalURL url),
                                 incrementClickCount (incrDown io) w2 shortCode))))"

definition GetURLStats ::
  "stats_io \<Rightarrow> world \<Rightarrow> string \<Rightarrow> (error + URLStatsResponse) \<times> world" where
  "GetURLStats io w shortCode =
     (case pgGetURLStats (statsDbDown io) (pgdb w) shortCode of
        Inl err \<Rightarrow> (Inl err, w)
      | Inr url \<Rightarrow>
          (case GetClickCount (statsCacheDown io) (rds w) shortCode of
             (pendingClicks, cerr) \<Rightarrow>
               (Inr \<lparr>st_ShortCode = ShortCode url,
                     st_OriginalURL = OriginalURL url,
                     st_ClickCount = ClickCount url + pendingClicks,
                     st_CreatedAt = CreatedAt url,
                     st_ExpiresAt = ExpiresAt url,
                     st_IsActive = IsActive url\<rparr>,
                w\<lparr>logs := logs w @
                    (case cerr of
                       Some err \<Rightarrow> [(''cache get pending clicks failed: shortCode=%s err=%v'',
                                     [S shortCode, E err])]
                     | None \<Rightarrow> [])\<rparr>)))"


section \<open>Reconciliation scheduler (ClickSyncScheduler)\<close>

text \<open>
  Which of the three store calls made for one key fail in the client: the drain
  (\<open>GetAndResetClickCount\<close>), the apply (\<open>IncrementClickCountBy\<close> of the Durable
  Store) and the restore.
\<close>

record sync_io =
  drainDown :: bool
  applyDown :: bool
  restoreDown :: bool

definition restoreClickCount ::
  "bool \<Rightarrow> redis_state \<Rightarrow> string \<Rightarrow> int64 \<Rightarrow> error option \<times> redis_state" where
  "restoreClickCount down r shortCode count = redisIncrementClickCountBy down r shortCode count"

text \<open>
  The body of the loop of \<open>syncClickCounts\<close> for one key, on the state of the stores,
  the log and the two counters of the run. \<open>None\<close> is the panic of
  \<open>ExtractShortCodeFromKey\<close>.
\<close>

definition syncKey ::
  "sync_io \<Rightarrow> time \<Rightarrow> string \<Rightarrow> world \<times> int \<times> int \<Rightarrow> (world \<times> int \<times> int) option" where
  "syncKey io now key st =
     (case st of (w, successCount, failCount) \<Rightarrow>
      case ExtractShortCodeFromKey key of
        None \<Rightarrow> None
      | Some shortCode \<Rightarrow>
          (case GetAndResetClickCount (drainDown io) (rds w) shortCode of
             ((count, Some err), r1) \<Rightarrow>
               Some (w\<lparr>rds := r1,
                       logs := logs w @
                         [(''Failed to get click count for %s: %v'', [S shortCode, E err])]\<rparr>,
                     successCount, failCount + 1)
           | ((count, None), r1) \<Rightarrow>
               if count = 0 then Some (w\<lparr>rds := r1\<rparr>, successCount, failCount)
               else
                 (case pgIncrementClickCountBy (applyDown io) now (pgdb w) shortCode count of
                    (Some err, pg1) \<Rightarrow>
                      (case restoreClickCount (restoreDown io) r1 shortCode count of
                         (rerr, r2) \<Rightarrow>
                           Some (w\<lparr>pgdb := pg1, rds := r2,
                                   logs := logs w @
                                     [(''Failed to sync click count for %s: %v'',
                                       [S shortCode, E err])] @
                                     (case rerr of
                                        Some restoreErr \<Rightarrow>
                                          [(''Failed to restore click count for %s: %v (data loss: %d clicks)'',
                                            [S shortCode, E restoreErr, I (sint count)])]
                                      | None \<Rightarrow> [])\<rparr>,
                                 successCount, failCount + 1))
                  | (None, pg1) \<Rightarrow>
                      Some (w\<lparr>pgdb := pg1, rds := r1\<rparr>, successCount + 1, failCount))))"

text \<open>The loop over the keys; \<open>io i\<close> are the failures of the \<open>i\<close>-th iteration.\<close>

fun syncLoop ::
  "(nat \<Rightarrow> sync_io) \<Rightarrow> time \<Rightarrow> nat \<Rightarrow> string list \<Rightarrow> world \<times> int \<times> int
     \<Rightarrow> (world \<times> int \<times> int) option" where
  "syncLoop io now i [] st = Some st"
| "syncLoop io now i (key # keys) st =
     (case syncKey (io i) now key st of
        None \<Rightarrow> None
      | Some st' \<Rightarrow> syncLoop io now (Suc i) keys st')"

definition syncClickCounts ::
  "string list option \<Rightarrow> (nat \<Rightarrow> sync_io) \<Rightarrow> time \<Rightarrow> world \<Rightarrow> world option" where
  "syncClickCounts scan io now w =
     (case GetAllClickCountKeys scan of
        Inl err \<Rightarrow> Some (w\<lparr>logs := logs w @ [(''Failed to get click count keys: %v'', [E err])]\<rparr>)
      | Inr keys \<Rightarrow>
          if length keys = 0 then Some w
          else
            (case syncLoop io now 0 keys
                    (w\<lparr>logs := logs w @
                         [(''Syncing click counts for %d URLs...'', [I (int (length keys))])]\<rparr>,
                     0, 0) of
               None \<Rightarrow> None
             | Some (w', successCount, failCount) \<Rightarrow>
                 Some (if successCount > 0 \<or> failCount > 0
                       then w'\<lparr>logs := logs w' @
                                 [(''Click count sync completed: %d success, %d failed'',
                                   [I successCount, I failCount])]\<rparr>
                       else w')))"

section \<open>Rate limiter (middleware package)\<close>

text \<open>
  \<open>float64(n)\<close> for a 64-bit integer: the nearest number with a 53-bit significand,
  ties to even. Every such number is itself an integer, so scores are kept in \<open>int\<close>.
\<close>

function float64Shift :: "int \<Rightarrow> nat" where
  "float64Shift m = (if m < 2 ^ 53 then 0 else Suc (float64Shift (m div 2)))"
  by pat_completeness auto
termination
  by (relation "measure nat") auto

declare float64Shift.simps [simp del]

definition float64 :: "int \<Rightarrow> int" where
  "float64 n =
     (let m = \<bar>n\<bar>;
          e = float64Shift m
      in if e = 0 then n
         else
           let q = m div 2 ^ e;
               rest = m mod 2 ^ e;
               half = 2 ^ (e - 1);
               q' = (if rest > half \<or> (rest = half \<and> odd q) then q + 1 else q)
           in sgn n * (q' * 2 ^ e))"

text \<open>
  The commands of the server on a sorted set, a list of (member, score) pairs with one
  entry per member. \<open>ZREMRANGEBYSCORE key min max\<close> removes the entries whose score
  lies between \<open>min\<close> and \<open>max\<close>, both bounds included; a sorted set that becomes
  empty is deleted with its time-to-live. \<open>ZADD\<close> of a member that is present only
  sets its score. \<open>EXPIRE\<close> on a missing key does nothing, and with a time-to-live
  that is not positive it deletes the key; the time-to-live kept in the model is the
  duration passed to the client, which sends it to the server in whole seconds.
\<close>

definition ZREMRANGEBYSCORE :: "redis_state \<Rightarrow> string \<Rightarrow> int \<Rightarrow> int \<Rightarrow> redis_state" where
  "ZREMRANGEBYSCORE r key lo hi =
     (case zsets r key of
        None \<Rightarrow> r
      | Some zs \<Rightarrow>
          let zs' = filter (\<lambda>(member, score). \<not> (lo \<le> score \<and> score \<le> hi)) zs
          in if zs' = []
             then r\<lparr>zsets := (zsets r)(key := None), ttls := (ttls r)(key := None)\<rparr>
             else r\<lparr>zsets := (zsets r)(key \<mapsto> zs')\<rparr>)"

definition ZCARD :: "redis_state \<Rightarrow> string \<Rightarrow> int" where
  "ZCARD r key = (case zsets r key of None \<Rightarrow> 0 | Some zs \<Rightarrow> int (length zs))"

definition ZADD :: "redis_state \<Rightarrow> string \<Rightarrow> int \<Rightarrow> int \<Rightarrow> redis_state" where
  "ZADD r key score member =
     (let zs = (case zsets r key of None \<Rightarrow> [] | Some zs \<Rightarrow> zs);
          zs' = (if member \<in> fst ` set zs
                 then map (\<lambda>(m, s). if m = member then (m, score) else (m, s)) zs
                 else zs @ [(member, score)])
      in r\<lparr>zsets := (zsets r)(key \<mapsto> zs')\<rparr>)"

definition EXPIRE :: "redis_state \<Rightarrow> string \<Rightarrow> duration \<Rightarrow> redis_state" where
  "EXPIRE r key d =
     (if urlCache r key = None \<and> counters r key = None \<and> zsets r key = None then r
      else if d \<le> 0
      then r\<lparr>urlCache := (urlCache r)(key := None), counters := (counters r)(key := None),
             zsets := (zsets r)(key := None), ttls := (ttls r)(key := None)\<rparr>
      else r\<lparr>ttls := (ttls r)(key \<mapsto> d)\<rparr>)"

function formatDigits :: "int \<Rightarrow> string \<Rightarrow> string" where
  "formatDigits n digits =
     (if n > 0 then formatDigits (n div 10) (char_of (48 + n mod 10) # digits) else digits)"
  by pat_completeness auto
termination
  by (relation "measure (\<lambda>(n, digits). nat n)") auto

declare formatDigits.simps [simp del]

definition formatInt64 :: "int \<Rightarrow> string" where
  "formatInt64 n0 =
     (if n0 = 0 then ''0''
      else
        let negative = n0 < 0;
            n = (if negative then wrap64 (- n0) else n0);
            digits = formatDigits n []
        in if negative then CHR ''-'' # digits else digits)"

definition formatInt :: "int \<Rightarrow> string" where
  "formatInt n = formatInt64 n"

record RateLimiter =
  requests :: int
  duration :: duration

record rl_io =
  precheckDown :: bool
  recordDown :: bool

datatype outcome =
    Next
  | AbortWithStatusJSON int "(string \<times> string) list"

record response =
  headers :: "(string \<times> string) list"
  outcome :: outcome

text \<open>
  The two pipelines of \<open>Middleware\<close>; \<open>down\<close> says whether the pipeline fails in
  the client, and it then has no effect. The first removes the old entries of the key and
  counts the rest. The bounds of the removal are sent as the strings \<open>"0"\<close> and
  \<open>formatInt64(windowStart)\<close>, which the server reads as floating-point scores; the
  one string of \<open>formatInt64\<close> that is no number, \<open>"-"\<close>, makes the command and
  with it the pipeline fail. The second pipeline adds the request with \<open>float64(now)\<close>
  as score and \<open>now\<close> as member, and sets the time-to-live of the key.
\<close>

definition pruneAndCount ::
  "RateLimiter \<Rightarrow> bool \<Rightarrow> time \<Rightarrow> string \<Rightarrow> redis_state \<Rightarrow> error + redis_state \<times> int" where
  "pruneAndCount rl down now key r =
     (let windowStart = wrap64 (now - duration rl)
      in if down then Inl (DriverError ''connection'')
         else if formatInt64 windowStart = ''-''
         then Inl (DriverError ''ERR min or max is not a float'')
         else
           let r1 = ZREMRANGEBYSCORE r key 0 (float64 windowStart)
           in Inr (r1, ZCARD r1 key))"

definition recordRequest ::
  "RateLimiter \<Rightarrow> bool \<Rightarrow> time \<Rightarrow> string \<Rightarrow> redis_state \<Rightarrow> error option \<times> redis_state" where
  "recordRequest rl down now key r =
     (if down then (Some (DriverError ''connection''), r)
      else (None, EXPIRE (ZADD r key (float64 now) now) key (duration rl)))"

text \<open>
  The handler that \<open>Middleware\<close> returns, for a request from \<open>ip\<close> to \<open>path\<close>.
  \<open>now\<close> is the clock reading that becomes the timestamp of the request, \<open>resetNow\<close>
  the later reading used for the \<open>X-RateLimit-Reset\<close> header. \<open>Next\<close> passes the
  request on to the handler. The subtraction for \<open>remaining\<close> cannot leave the range
  of \<open>int\<close>, since it is only reached with \<open>0 \<le> count < requests\<close>; the whole
  seconds of \<open>Retry-After\<close> are the duration's seconds rounded towards zero.
\<close>

definition Middleware ::
  "RateLimiter \<Rightarrow> rl_io \<Rightarrow> time \<Rightarrow> time \<Rightarrow> string \<Rightarrow> string \<Rightarrow> redis_state
     \<Rightarrow> response \<times> redis_state \<times> logline list" where
  "Middleware rl io now resetNow ip path r =
     (let key = ''ratelimit:'' @ ip
      in case pruneAndCount rl (precheckDown io) now key r of
           Inl err \<Rightarrow>
             (\<lparr>headers = [], outcome = Next\<rparr>, r,
              [(''rate_limit redis error (precheck): ip=%s path=%s err=%v'',
                [S ip, S path, E err])])
         | Inr (r1, count) \<Rightarrow>
             if count \<ge> requests rl
             then (\<lparr>headers =
                      [(''X-RateLimit-Limit'', formatInt (requests rl)),
                       (''X-RateLimit-Remaining'', ''0''),
                       (''X-RateLimit-Reset'',
                          formatInt64 ((resetNow + duration rl) div 1000000000)),
                       (''Retry-After'',
                          formatInt (sgn (duration rl) * (\<bar>duration rl\<bar> div 1000000000)))],
                    outcome = AbortWithStatusJSON 429
                      [(''error'', ''rate limit exceeded''),
                       (''message'', ''Too many requests. Please try again later.'')]\<rparr>,
                   r1, [])
             else
               (case recordRequest rl (recordDown io) now key r1 of
                  (rerr, r2) \<Rightarrow>
                    let remaining0 = requests rl - count - 1;
                        remaining = (if remaining0 < 0 then 0 else remaining0)
                    in (\<lparr>headers =
                           [(''X-RateLimit-Limit'', formatInt (requests rl)),
                            (''X-RateLimit-Remaining'', formatInt remaining),
                            (''X-RateLimit-Reset'',
                               formatInt64 ((resetNow + duration rl) div 1000000000))],
                         outcome = Next\<rparr>,
                        r2,
                        (case rerr of
                           Some err \<Rightarrow>
                             [(''rate_limit redis error (record): ip=%s path=%s err=%v'',
                               [S ip, S path, E err])]
                         | None \<Rightarrow> []))))"
section \<open>Example states\<close>

definition empty_redis :: redis_state where
  "empty_redis = \<lparr>urlCache = Map.empty, counters = Map.empty, zsets = Map.empty, ttls = Map.empty\<rparr>"

definition empty_world :: world where
  "empty_world = \<lparr>pgdb = \<lparr>rows = [], nextId = 1\<rparr>, rds = empty_redis, logs = []\<rparr>"

definition example_lib :: stdlib where
  "example_lib = \<lparr>sha256hex = (\<lambda>u. ''sha256:'' @ u), TrimSpace = (\<lambda>s. s),
                   Sscanf_d = (\<lambda>s. None), ParseDuration = (\<lambda>s. None)\<rparr>"

definition example_cfg :: Config where
  "example_cfg = \<lparr>BaseURL = ''http://localhost'', ShortCodeLength = 6\<rparr>"

definition no_create_faults :: create_io where
  "no_create_faults = \<lparr>hashDown = False, insertDown = False, updateDown = False,
                        createCacheSetDown = False\<rparr>"

definition no_resolve_faults :: resolve_io where
  "no_resolve_faults = \<lparr>cacheGetDown = False, dbGetDown = False, cacheSetDown = False,
                         incrDown = False\<rparr>"

definition no_stats_faults :: stats_io where
  "no_stats_faults = \<lparr>statsDbDown = False, statsCacheDown = False\<rparr>"

definition example_req :: CreateURLRequest where
  "example_req = \<lparr>req_URL = ''https://example.com'', req_ExpiresIn = []\<rparr>"

text \<open>The record that the first \<open>CreateShortURL\<close> on the empty store makes at time 1000.\<close>

definition example_row :: URL where
  "example_row = \<lparr>ID = 1, ShortCode = ''000001'', URLHash = ''sha256:https://example.com'',
                   OriginalURL = ''https://example.com'', ClickCount = 0, CreatedAt = 1000,
                   UpdatedAt = 1000, ExpiresAt = None, IsActive = True\<rparr>"

definition world_after_create :: world where
  "world_after_create =
     \<lparr>pgdb = \<lparr>rows = [example_row], nextId = 2\<rparr>,
      rds = empty_redis\<lparr>urlCache := [''url:000001'' \<mapsto> example_row],
                        ttls := [''url:000001'' \<mapsto> urlCacheTTL]\<rparr>,
      logs = []\<rparr>"

text \<open>An active record that expires at the instant 100, held by the cache or by the store.\<close>

definition expiring_row :: URL where
  "expiring_row = example_row\<lparr>ExpiresAt := Some 100\<rparr>"

definition world_cached :: world where
  "world_cached =
     \<lparr>pgdb = \<lparr>rows = [], nextId = 2\<rparr>,
      rds = empty_redis\<lparr>urlCache := [''url:000001'' \<mapsto> expiring_row]\<rparr>,
      logs = []\<rparr>"

definition world_stored :: world where
  "world_stored = \<lparr>pgdb = \<lparr>rows = [expiring_row], nextId = 2\<rparr>, rds = empty_redis, logs = []\<rparr>"

text \<open>A record with 7 clicks in the store and 5 pending clicks in the cache.\<close>

definition world_clicks :: world where
  "world_clicks =
     \<lparr>pgdb = \<lparr>rows = [example_row\<lparr>ClickCount := 7\<rparr>], nextId = 2\<rparr>,
      rds = empty_redis\<lparr>counters := [''clicks:000001'' \<mapsto> 5]\<rparr>,
      logs = []\<rparr>"

text \<open>The value of the Pending Click Counter of a short code: 0 when the key is absent.\<close>

definition pendingClickCounter :: "redis_state \<Rightarrow> string \<Rightarrow> int64" where
  "pendingClickCounter r shortCode =
     (case counters r (clickCountPrefix @ shortCode) of None \<Rightarrow> 0 | Some n \<Rightarrow> n)"

text \<open>The entries of the sorted set under a key: none when the key is absent.\<close>

definition zsetEntries :: "redis_state \<Rightarrow> string \<Rightarrow> (int \<times> int) list" where
  "zsetEntries r key = (case zsets r key of None \<Rightarrow> [] | Some zs \<Rightarrow> zs)"

text \<open>A pending counter of 5 clicks for a short code that has no row in the store.\<close>

definition world_orphan :: world where
  "world_orphan =
     \<lparr>pgdb = \<lparr>rows = [], nextId = 2\<rparr>,
      rds = empty_redis\<lparr>counters := [''clicks:gone'' \<mapsto> 5]\<rparr>,
      logs = []\<rparr>"

definition no_sync_faults :: sync_io where
  "no_sync_faults = \<lparr>drainDown = False, applyDown = False, restoreDown = False\<rparr>"

definition apply_fails :: sync_io where
  "apply_fails = \<lparr>drainDown = False, applyDown = True, restoreDown = False\<rparr>"

text \<open>
  A limiter of 3 requests per minute and one of 1 request per minute; the window of a
  caller at the clock reading 1700000000000000000, whose start is 1699999940000000000:
  one entry at the start of the window and one ten seconds later. All three numbers are
  their own \<open>float64\<close>.
\<close>

definition example_limiter :: RateLimiter where
  "example_limiter = \<lparr>requests = 3, duration = 60000000000\<rparr>"

definition strict_limiter :: RateLimiter where
  "strict_limiter = \<lparr>requests = 1, duration = 60000000000\<rparr>"

definition no_rl_faults :: rl_io where
  "no_rl_faults = \<lparr>precheckDown = False, recordDown = False\<rparr>"

definition redis_down :: rl_io where
  "redis_down = \<lparr>precheckDown = True, recordDown = True\<rparr>"

definition record_fails :: rl_io where
  "record_fails = \<lparr>precheckDown = False, recordDown = True\<rparr>"

definition window_redis :: redis_state where
  "window_redis =
     empty_redis\<lparr>zsets := [''ratelimit:10.0.0.1'' \<mapsto>
        [(1699999940000000000, 1699999940000000000),
         (1699999950000000000, 1699999950000000000)]]\<rparr>"

definition window_redis_pruned :: redis_state where
  "window_redis_pruned =
     empty_redis\<lparr>zsets := [''ratelimit:10.0.0.1'' \<mapsto>
        [(1699999950000000000, 1699999950000000000)]]\<rparr>"
section \<open>Properties of the short code generator\<close>

lemma wrap64_id: "- (2 ^ 63) \<le> x \<Longrightarrow> x < 2 ^ 63 \<Longrightarrow> wrap64 x = x"
  by (simp add: wrap64_def)

lemma encodeLoop_digits:
  "encodeLoop num acc = acc @ map ((!) base62Chars) (digitsLSB num)"
proof (induction num acc rule: encodeLoop.induct)
  case (1 num result)
  show ?case
  proof (cases "num > 0")
    case True
    then show ?thesis
      using "1.IH" [OF True]
      by (subst encodeLoop.simps, subst digitsLSB.simps) simp
  next
    case False
    then show ?thesis
      by (subst encodeLoop.simps, subst digitsLSB.simps) simp
  qed
qed

lemma digitsLSB_bound: "d \<in> set (digitsLSB num) \<Longrightarrow> d < 62"
proof (induction num rule: digitsLSB.induct)
  case (1 num)
  show ?case
  proof (cases "num > 0")
    case True
    from "1.prems" have "d = nat (num mod 62) \<or> d \<in> set (digitsLSB (num div 62))"
      using True by (subst (asm) digitsLSB.simps) auto
    then show ?thesis
      using "1.IH" [OF True] by auto
  next
    case False
    with "1.prems" show ?thesis
      by (subst (asm) digitsLSB.simps) simp
  qed
qed

text \<open>
  What the reversal loop leaves at each index: between \<open>i\<close> and \<open>j\<close> the mirrored
  element, elsewhere the element that was there.
\<close>

lemma reverseRunes_nth:
  "0 \<le> i \<Longrightarrow> j < int (length runes) \<Longrightarrow>
   length (reverseRunes i j runes) = length runes \<and>
   (\<forall>k < length runes. reverseRunes i j runes ! k =
      (if i \<le> int k \<and> int k \<le> j then runes ! nat (i + j - int k) else runes ! k))"
proof (induction i j runes rule: reverseRunes.induct)
  case (1 i j runes)
  show ?case
  proof (cases "i < j")
    case True
    let ?r = "(runes[nat i := runes ! nat j])[nat j := runes ! nat i]"
    have step: "reverseRunes i j runes = reverseRunes (i + 1) (j - 1) ?r"
      using True by (subst reverseRunes.simps) simp
    have ih: "length (reverseRunes (i + 1) (j - 1) ?r) = length ?r \<and>
      (\<forall>k < length ?r. reverseRunes (i + 1) (j - 1) ?r ! k =
        (if i + 1 \<le> int k \<and> int k \<le> j - 1
         then ?r ! nat (i + 1 + (j - 1) - int k) else ?r ! k))"
      using "1.IH" [OF True] "1.prems" by simp
    show ?thesis
    proof (intro conjI allI impI)
      show "length (reverseRunes i j runes) = length runes"
        using ih step by simp
    next
      fix k assume k: "k < length runes"
      have "reverseRunes i j runes ! k =
         (if i + 1 \<le> int k \<and> int k \<le> j - 1
          then ?r ! nat (i + 1 + (j - 1) - int k) else ?r ! k)"
        using ih step k by simp
      also have "\<dots> =
         (if i \<le> int k \<and> int k \<le> j then runes ! nat (i + j - int k) else runes ! k)"
        using True "1.prems" k
        by (auto simp: nth_list_update nat_eq_iff)
      finally show "reverseRunes i j runes ! k =
        (if i \<le> int k \<and> int k \<le> j then runes ! nat (i + j - int k) else runes ! k)" .
    qed
  next
    case False
    then show ?thesis
      by (subst reverseRunes.simps, subst reverseRunes.simps)
         (auto intro: arg_cong [where f = "(!) runes"])
  qed
qed

lemma reverseRunes_rev: "reverseRunes 0 (int (length runes) - 1) runes = rev runes"
proof (rule nth_equalityI)
  show "length (reverseRunes 0 (int (length runes) - 1) runes) = length (rev runes)"
    using reverseRunes_nth [of 0 "int (length runes) - 1" runes] by simp
next
  fix k assume "k < length (reverseRunes 0 (int (length runes) - 1) runes)"
  then have k: "k < length runes"
    using reverseRunes_nth [of 0 "int (length runes) - 1" runes] by simp
  have "nat (int (length runes) - 1 - int k) = length runes - Suc k"
    using k by linarith
  then show "reverseRunes 0 (int (length runes) - 1) runes ! k = rev runes ! k"
    using reverseRunes_nth [of 0 "int (length runes) - 1" runes] k
    by (simp add: rev_nth)
qed

lemma base62Chars_table:
  "\<forall>d \<in> set [0..<62].
     (let c = (of_char (base62Chars ! d) :: nat)
      in (d < 10 \<and> c = 48 + d) \<or> (10 \<le> d \<and> d < 36 \<and> c = 55 + d) \<or> (36 \<le> d \<and> c = 61 + d))"
  by code_simp

lemma base62Chars_digit:
  assumes "d < 62"
  shows "(d < 10 \<and> (of_char (base62Chars ! d) :: nat) = 48 + d)
       \<or> (10 \<le> d \<and> d < 36 \<and> (of_char (base62Chars ! d) :: nat) = 55 + d)
       \<or> (36 \<le> d \<and> (of_char (base62Chars ! d) :: nat) = 61 + d)"
proof -
  from assms have "d \<in> set [0..<62]" by simp
  with base62Chars_table show ?thesis
    unfolding Let_def by blast
qed

lemma base62Chars_ascii: "d < 62 \<Longrightarrow> (of_char (base62Chars ! d) :: nat) < 128"
  using base62Chars_digit [of d] by auto

lemma decodeStep_digit:
  "d < 62 \<Longrightarrow>
   decodeStep num (int (of_char (base62Chars ! d))) = wrap64 (wrap64 (num * 62) + int d)"
  using base62Chars_digit [of d] by (auto simp: decodeStep_def Let_def)

lemma rangeRunes_ascii_string:
  "\<forall>c \<in> set s. (of_char c :: nat) < 128 \<Longrightarrow> rangeRunes s = map (\<lambda>c. int (of_char c)) s"
  by (induction s) simp_all

lemma decode_digits:
  "0 \<le> num \<Longrightarrow> num < 2 ^ 63 \<Longrightarrow>
   foldl decodeStep 0 (map (\<lambda>d. int (of_char (base62Chars ! d))) (rev (digitsLSB num))) = num"
proof (induction num rule: digitsLSB.induct)
  case (1 num)
  show ?case
  proof (cases "num > 0")
    case True
    have ds: "digitsLSB num = nat (num mod 62) # digitsLSB (num div 62)"
      using True by (subst digitsLSB.simps) simp
    have ih: "foldl decodeStep 0
                (map (\<lambda>d. int (of_char (base62Chars ! d))) (rev (digitsLSB (num div 62))))
              = num div 62"
      using "1.IH" [OF True] "1.prems" by simp
    have d: "nat (num mod 62) < 62" by simp
    have "wrap64 (num div 62 * 62) = num div 62 * 62"
      using "1.prems" True by (intro wrap64_id) auto
    moreover have "num div 62 * 62 + num mod 62 = num" by simp
    ultimately have "wrap64 (wrap64 (num div 62 * 62) + int (nat (num mod 62))) = num"
      using "1.prems" by (simp add: wrap64_id)
    then show ?thesis
      using ih by (simp add: ds decodeStep_digit [OF d])
  next
    case False
    with "1.prems" show ?thesis
      by (subst digitsLSB.simps) simp
  qed
qed

lemma encodeBase62_digits:
  "num \<noteq> 0 \<Longrightarrow> encodeBase62 num = map ((!) base62Chars) (rev (digitsLSB num))"
  by (simp add: encodeBase62_def Let_def reverseRunes_rev encodeLoop_digits rev_map)

lemma decodeBase62_encodeBase62:
  assumes "0 \<le> num" "num < 2 ^ 63"
  shows "decodeBase62 (encodeBase62 num) = num"
proof (cases "num = 0")
  case True
  then show ?thesis
    by (simp add: decodeBase62_def encodeBase62_def base62Chars_def decodeStep_def wrap64_def)
next
  case False
  have "\<forall>c \<in> set (encodeBase62 num). (of_char c :: nat) < 128"
    using False by (auto simp: encodeBase62_digits base62Chars_ascii dest: digitsLSB_bound)
  then have "rangeRunes (encodeBase62 num) = map (\<lambda>c. int (of_char c)) (encodeBase62 num)"
    by (rule rangeRunes_ascii_string)
  then show ?thesis
    using decode_digits [OF assms] False
    by (simp add: decodeBase62_def encodeBase62_digits comp_def)
qed

lemma rangeRunes_zeros:
  "rangeRunes (replicate n (CHR ''0'') @ c) = replicate n 48 @ rangeRunes c"
  by (induction n) simp_all

lemma decodeStep_zeros: "foldl decodeStep 0 (replicate n 48) = 0"
  by (induction n) (simp_all add: decodeStep_def wrap64_def)

lemma decodeBase62_zeros: "decodeBase62 (replicate n (CHR ''0'') @ c) = decodeBase62 c"
  by (simp add: decodeBase62_def rangeRunes_zeros decodeStep_zeros)

lemma padShortCode_replicate:
  "padShortCode n shortCode =
     replicate (nat (n - int (length shortCode))) (CHR ''0'') @ shortCode"
proof (induction n shortCode rule: padShortCode.induct)
  case (1 n shortCode)
  show ?case
  proof (cases "int (length shortCode) < n")
    case True
    have "nat (n - int (length shortCode)) = Suc (nat (n - int (length (CHR ''0'' # shortCode))))"
      using True by simp
    then show ?thesis
      using "1.IH" [OF True] True
      by (subst padShortCode.simps) (simp add: replicate_app_Cons_same)
  next
    case False
    then show ?thesis
      by (subst padShortCode.simps) simp
  qed
qed

text \<open>
  Claim C5. For every identifier from 0 up to the largest value of the store's
  \<open>BIGSERIAL\<close> column (\<open>2^63 - 1\<close>), decoding the base-62 encoding of the identifier
  gives the identifier back; the encoding of 0 is the first symbol of the alphabet.
\<close>

theorem decode_encode_roundtrip:
  assumes "0 \<le> num" and "num < 2 ^ 63"
  shows "decodeBase62 (encodeBase62 num) = num \<and> encodeBase62 0 = [hd base62Chars]"
proof
  show "decodeBase62 (encodeBase62 num) = num"
    using assms by (rule decodeBase62_encodeBase62)
  show "encodeBase62 0 = [hd base62Chars]"
    by (simp add: encodeBase62_def base62Chars_def)
qed

theorem decode_encode_roundtrip_witness:
  "(0::int) \<le> 9223372036854775807 \<and> (9223372036854775807::int) < 2 ^ 63
   \<and> decodeBase62 (encodeBase62 9223372036854775807) = 9223372036854775807
   \<and> encodeBase62 0 = [hd base62Chars]"
  using decode_encode_roundtrip [of 9223372036854775807] by simp

text \<open>
  Claim C10. Decoding ignores leading zero symbols: for every string \<open>c\<close> and every
  \<open>n\<close>, \<open>n\<close> copies of the zero symbol followed by \<open>c\<close> decode to what \<open>c\<close>
  decodes to. So the short code that \<open>CreateShortURL\<close> pads to the configured
  minimum length decodes to the same number as the unpadded encoding.
\<close>

theorem decode_ignores_zero_padding:
  "decodeBase62 (replicate n (CHR ''0'') @ c) = decodeBase62 c
   \<and> decodeBase62 (padShortCode len (encodeBase62 num)) = decodeBase62 (encodeBase62 num)"
  by (simp add: decodeBase62_zeros padShortCode_replicate)
section \<open>Properties of the resolver\<close>

lemma not_IsValid_iff:
  "\<not> IsValid now u \<longleftrightarrow> (\<not> IsActive u \<or> (\<exists>t. ExpiresAt u = Some t \<and> t < now))"
  by (auto simp: IsValid_def IsExpired_def split: option.splits)

lemma GetOriginalURL_cached_invalid:
  assumes "\<not> cacheGetDown io"
    and "urlCache (rds w) (urlCachePrefix @ shortCode) = Some u"
    and "\<not> IsValid now u"
  shows "GetOriginalURL io now w shortCode =
           (Inl ErrURLExpired,
            w\<lparr>rds := (rds w)\<lparr>ttls := (ttls (rds w))(urlCachePrefix @ shortCode \<mapsto> urlCacheTTL)\<rparr>\<rparr>)"
  using assms by (simp add: GetOriginalURL_def GetURL_def Let_def)

lemma GetOriginalURL_stored_invalid:
  assumes "cacheGetDown io \<or> urlCache (rds w) (urlCachePrefix @ shortCode) = None"
    and "\<not> dbGetDown io"
    and "find (\<lambda>r. ShortCode r = shortCode) (rows (pgdb w)) = Some u"
    and "\<not> IsValid now u"
  shows "fst (GetOriginalURL io now w shortCode) = Inl ErrURLExpired"
  using assms by (auto simp: GetOriginalURL_def GetURL_def GetURLByShortCode_def Let_def)

text \<open>
  Claim C4, as stated, fails at the instant of expiry. The record \<open>expiring_row\<close> is
  active and expires at 100; a resolve at the clock reading 100 (so that
  \<open>expiry \<le> now\<close>) returns the destination URL, both when the record comes from the
  cache and when it comes from the store, since \<open>IsExpired\<close> asks whether \<open>now\<close> is
  after the expiry.
\<close>

theorem resolve_at_expiry_instant_counterexample:
  "IsActive expiring_row \<and> ExpiresAt expiring_row = Some 100
   \<and> fst (GetOriginalURL no_resolve_faults 100 world_cached ''000001'') = Inr ''https://example.com''
   \<and> fst (GetOriginalURL no_resolve_faults 100 world_stored ''000001'') = Inr ''https://example.com''"
  by (simp add: GetOriginalURL_def GetURL_def GetURLByShortCode_def SetURL_def Let_def
        IsValid_def IsExpired_def expiring_row_def example_row_def world_cached_def
        world_stored_def empty_redis_def no_resolve_faults_def urlCachePrefix_def
        split: prod.splits)

text \<open>
  Claim C4, amended. A record is valid iff it is active and its expiry is unset or not
  before \<open>now\<close>. For a record \<open>u\<close> that is inactive or whose expiry is strictly
  before \<open>now\<close>, \<open>GetOriginalURL\<close> fails with \<open>ErrURLExpired\<close>: when the cache
  answers with the snapshot \<open>u\<close> (world \<open>w1\<close>), at once and whatever the Durable
  Store holds, the only effect being the refreshed time-to-live of the snapshot; and when
  the cache misses or fails and the Durable Store holds \<open>u\<close> (world \<open>w2\<close>).
\<close>

theorem resolve_invalid_record_expired:
  assumes invalid: "\<not> IsActive u \<or> (\<exists>t. ExpiresAt u = Some t \<and> t < now)"
    and cached: "\<not> cacheGetDown io1" "urlCache (rds w1) (urlCachePrefix @ shortCode) = Some u"
    and stored: "cacheGetDown io2 \<or> urlCache (rds w2) (urlCachePrefix @ shortCode) = None"
      "\<not> dbGetDown io2" "find (\<lambda>r. ShortCode r = shortCode) (rows (pgdb w2)) = Some u"
  shows "\<not> IsValid now u
       \<and> GetOriginalURL io1 now w1 shortCode =
           (Inl ErrURLExpired,
            w1\<lparr>rds := (rds w1)\<lparr>ttls := (ttls (rds w1))(urlCachePrefix @ shortCode \<mapsto> urlCacheTTL)\<rparr>\<rparr>)
       \<and> fst (GetOriginalURL io2 now w2 shortCode) = Inl ErrURLExpired"
proof -
  from invalid have inv: "\<not> IsValid now u"
    by (simp add: not_IsValid_iff)
  show ?thesis
    using inv GetOriginalURL_cached_invalid [OF cached inv]
      GetOriginalURL_stored_invalid [OF stored inv]
    by simp
qed

theorem resolve_invalid_record_expired_witness:
  "(\<exists>t. ExpiresAt expiring_row = Some t \<and> t < 101)
   \<and> \<not> cacheGetDown no_resolve_faults
   \<and> urlCache (rds world_cached) (urlCachePrefix @ ''000001'') = Some expiring_row
   \<and> urlCache (rds world_stored) (urlCachePrefix @ ''000001'') = None
   \<and> \<not> dbGetDown no_resolve_faults
   \<and> find (\<lambda>r. ShortCode r = ''000001'') (rows (pgdb world_stored)) = Some expiring_row
   \<and> fst (GetOriginalURL no_resolve_faults 101 world_cached ''000001'') = Inl ErrURLExpired
   \<and> fst (GetOriginalURL no_resolve_faults 101 world_stored ''000001'') = Inl ErrURLExpired"
proof -
  have a': "\<exists>t. ExpiresAt expiring_row = Some t \<and> t < 101"
    by (simp add: expiring_row_def)
  then have a: "\<not> IsActive expiring_row \<or> (\<exists>t. ExpiresAt expiring_row = Some t \<and> t < 101)"
    by (rule disjI2)
  have b: "\<not> cacheGetDown no_resolve_faults" "\<not> dbGetDown no_resolve_faults"
    by (simp_all add: no_resolve_faults_def)
  have c: "urlCache (rds world_cached) (urlCachePrefix @ ''000001'') = Some expiring_row"
    by (simp add: world_cached_def urlCachePrefix_def)
  have d: "urlCache (rds world_stored) (urlCachePrefix @ ''000001'') = None"
    by (simp add: world_stored_def empty_redis_def)
  have e: "find (\<lambda>r. ShortCode r = ''000001'') (rows (pgdb world_stored)) = Some expiring_row"
    by (simp add: world_stored_def expiring_row_def example_row_def)
  from resolve_invalid_record_expired [OF a b(1) c disjI2 [OF d] b(2) e] a' b c d e
  show ?thesis by simp
qed

section \<open>Properties of Create\<close>

lemma find_map_hash:
  "(\<And>r. URLHash (f r) = URLHash r) \<Longrightarrow>
   find (\<lambda>r. URLHash r = h) (map f rs) = map_option f (find (\<lambda>r. URLHash r = h) rs)"
  by (induction rs) auto

lemma find_append_none:
  "\<forall>r \<in> set rs. \<not> P r \<Longrightarrow> find P (rs @ ss) = find P ss"
  by (induction rs) auto

lemma CreateURL_Inr:
  assumes "CreateURL down now pg h orig ex = (Inr url, pg1)"
  shows "\<forall>r \<in> set (rows pg). URLHash r \<noteq> h \<and> ID r \<noteq> ID url"
    and "\<exists>row. rows pg1 = rows pg @ [row] \<and> URLHash row = h \<and> ID row = ID url"
  using assms
  by (auto simp: CreateURL_def Let_def split: if_splits)

lemma UpdateShortCode_None:
  assumes "UpdateShortCode down now pg i code = (None, pg2)"
    and "\<exists>r \<in> set (rows pg). ID r = i"
  shows "rows pg2 =
           map (\<lambda>r. if ID r = i then r\<lparr>ShortCode := code, UpdatedAt := now\<rparr> else r) (rows pg)"
  using assms
  by (auto simp: UpdateShortCode_def split: if_splits)

text \<open>
  After a successful creation the store holds exactly one row with the hash, and its
  short code is the one in the response.
\<close>

lemma createNew_Inr:
  assumes "createNew cfg lib io now w req h = (Inr resp, w1)"
  shows "\<exists>r. find (\<lambda>r. URLHash r = h) (rows (pgdb w1)) = Some r \<and> ShortCode r = cr_ShortCode resp"
proof -
  from assms obtain expiresAt url pg1 pg2 where
    c: "CreateURL (insertDown io) now (pgdb w) h (req_URL req) expiresAt = (Inr url, pg1)"
    and u: "UpdateShortCode (updateDown io) now pg1 (ID url)
              (padShortCode (ShortCodeLength cfg) (encodeBase62 (ID url))) = (None, pg2)"
    and w1: "pgdb w1 = pg2"
    and resp: "cr_ShortCode resp = padShortCode (ShortCodeLength cfg) (encodeBase62 (ID url))"
    by (auto simp: createNew_def Let_def split: sum.splits prod.splits option.splits if_splits)
  let ?code = "padShortCode (ShortCodeLength cfg) (encodeBase62 (ID url))"
  let ?f = "\<lambda>r. if ID r = ID url then r\<lparr>ShortCode := ?code, UpdatedAt := now\<rparr> else r"
  from CreateURL_Inr [OF c] obtain row where
    old: "\<forall>r \<in> set (rows (pgdb w)). URLHash r \<noteq> h \<and> ID r \<noteq> ID url"
    and new: "rows pg1 = rows (pgdb w) @ [row]" "URLHash row = h" "ID row = ID url"
    by blast
  have "\<exists>r \<in> set (rows pg1). ID r = ID url"
    using new by auto
  from UpdateShortCode_None [OF u this] have rows2: "rows pg2 = map ?f (rows pg1)" .
  have "find (\<lambda>r. URLHash r = h) (rows pg2) = map_option ?f (find (\<lambda>r. URLHash r = h) (rows pg1))"
    unfolding rows2 by (rule find_map_hash) simp
  also have "find (\<lambda>r. URLHash r = h) (rows pg1) = Some row"
    using old new by (simp add: find_append_none)
  finally show ?thesis
    using new w1 resp by simp
qed

lemma CreateShortURL_Inr:
  assumes "CreateShortURL cfg lib io now w req = (Inr resp, w1)"
  shows "\<exists>r. find (\<lambda>r. URLHash r = hashURL lib (req_URL req)) (rows (pgdb w1)) = Some r
            \<and> ShortCode r = cr_ShortCode resp"
proof (cases "GetURLByHash (hashDown io) (pgdb w) (hashURL lib (req_URL req))")
  case (Inl e)
  with assms show ?thesis
    by (simp add: CreateShortURL_def Let_def)
next
  case (Inr existing)
  show ?thesis
  proof (cases "\<exists>e. existing = Some e \<and> IsValid now e")
    case True
    then obtain e where e: "existing = Some e" "IsValid now e" by blast
    with Inr assms have "w1 = w" "cr_ShortCode resp = ShortCode e"
      by (auto simp: CreateShortURL_def Let_def)
    moreover from Inr e
    have "find (\<lambda>r. URLHash r = hashURL lib (req_URL req)) (rows (pgdb w)) = Some e"
      by (simp add: GetURLByHash_def split: if_splits)
    ultimately show ?thesis by simp
  next
    case False
    with Inr assms
    have "createNew cfg lib io now w req (hashURL lib (req_URL req)) = (Inr resp, w1)"
      by (cases existing) (auto simp: CreateShortURL_def Let_def)
    then show ?thesis by (rule createNew_Inr)
  qed
qed

lemma encodeBase62_1: "encodeBase62 1 = ''1''"
  by (simp add: encodeBase62_digits digitsLSB.simps base62Chars_def)

lemma example_first_create:
  "CreateShortURL example_cfg example_lib no_create_faults 1000 empty_world example_req =
     (Inr \<lparr>cr_ShortCode = ''000001'', cr_ShortURL = ''http://localhost/000001'',
           cr_OriginalURL = ''https://example.com'', cr_ExpiresAt = None\<rparr>,
      world_after_create)"
  by (simp add: CreateShortURL_def createNew_def CreateURL_def UpdateShortCode_def SetURL_def
        GetURLByHash_def hashURL_def padShortCode.simps encodeBase62_1 Let_def
        example_cfg_def example_lib_def no_create_faults_def example_req_def empty_world_def
        example_row_def world_after_create_def empty_redis_def in_int64_def urlCachePrefix_def)

text \<open>
  Claim C6. Let a first \<open>CreateShortURL\<close> for a destination URL succeed and leave the
  stores in \<open>w1\<close>, and let the record that the Durable Store then holds for the URL's
  hash be valid at the time \<open>now2\<close> of a second call for the same URL (with any expiry
  request), whose lookup by hash does not fail. Then the second call succeeds with the
  short code of the first and leaves stores and log as they were: it creates no record.
\<close>

theorem create_twice_same_code:
  assumes first: "CreateShortURL cfg lib io1 now1 w0 req1 = (Inr resp1, w1)"
    and same: "req_URL req2 = req_URL req1"
    and up: "\<not> hashDown io2"
    and found: "find (\<lambda>r. URLHash r = hashURL lib (req_URL req1)) (rows (pgdb w1)) = Some r"
    and valid: "IsValid now2 r"
  shows "\<exists>resp2. CreateShortURL cfg lib io2 now2 w1 req2 = (Inr resp2, w1)
           \<and> cr_ShortCode resp2 = cr_ShortCode resp1"
proof -
  from CreateShortURL_Inr [OF first] found have "ShortCode r = cr_ShortCode resp1"
    by auto
  with found valid up same show ?thesis
    by (simp add: CreateShortURL_def GetURLByHash_def Let_def)
qed

theorem create_twice_same_code_witness:
  "CreateShortURL example_cfg example_lib no_create_faults 1000 empty_world example_req =
     (Inr \<lparr>cr_ShortCode = ''000001'', cr_ShortURL = ''http://localhost/000001'',
           cr_OriginalURL = ''https://example.com'', cr_ExpiresAt = None\<rparr>,
      world_after_create)
   \<and> \<not> hashDown no_create_faults
   \<and> find (\<lambda>r. URLHash r = hashURL example_lib (req_URL example_req))
        (rows (pgdb world_after_create)) = Some example_row
   \<and> IsValid 2000 example_row
   \<and> (\<exists>resp2. CreateShortURL example_cfg example_lib no_create_faults 2000 world_after_create
                 example_req = (Inr resp2, world_after_create)
              \<and> cr_ShortCode resp2 = ''000001'')"
proof -
  have f: "find (\<lambda>r. URLHash r = hashURL example_lib (req_URL example_req))
             (rows (pgdb world_after_create)) = Some example_row"
    by (simp add: world_after_create_def example_row_def hashURL_def example_lib_def
          example_req_def)
  have v: "IsValid 2000 example_row"
    by (simp add: IsValid_def IsExpired_def example_row_def)
  have u: "\<not> hashDown no_create_faults"
    by (simp add: no_create_faults_def)
  from create_twice_same_code [OF example_first_create refl u f v] f v u example_first_create
  show ?thesis by simp
qed

section \<open>Properties of GetStats\<close>

lemma sint_add_in_range:
  fixes a b :: int64
  shows "in_int64 (sint a + sint b) \<Longrightarrow> sint (a + b) = sint a + sint b"
  by (simp add: in_int64_def sint_word_ariths signed_take_bit_int_eq_self)

text \<open>
  Claim C7. For a short code whose row \<open>u\<close> the Durable Store returns,
  \<open>GetURLStats\<close> succeeds and changes neither store. Its \<open>ClickCount\<close> is the 64-bit
  sum of the row's click count and the Pending Click Counter, which is their sum as
  integers whenever that fits 64 bits; when the read of the counter fails it is the row's
  click count alone, and the call still succeeds.
\<close>

theorem stats_total_clicks:
  assumes "\<not> statsDbDown io"
    and "find (\<lambda>r. ShortCode r = shortCode) (rows (pgdb w)) = Some u"
  shows "\<exists>resp w'. GetURLStats io w shortCode = (Inr resp, w')
           \<and> pgdb w' = pgdb w \<and> rds w' = rds w
           \<and> (\<not> statsCacheDown io \<longrightarrow>
                 st_ClickCount resp = ClickCount u + pendingClickCounter (rds w) shortCode
               \<and> (in_int64 (sint (ClickCount u) + sint (pendingClickCounter (rds w) shortCode)) \<longrightarrow>
                    sint (st_ClickCount resp) =
                      sint (ClickCount u) + sint (pendingClickCounter (rds w) shortCode)))
           \<and> (statsCacheDown io \<longrightarrow> st_ClickCount resp = ClickCount u)"
  using assms
  by (auto simp: GetURLStats_def pgGetURLStats_def GetURLByShortCode_def GetClickCount_def
        pendingClickCounter_def Let_def sint_add_in_range split: option.splits)

theorem stats_total_clicks_witness:
  "\<not> statsDbDown no_stats_faults \<and> \<not> statsCacheDown no_stats_faults
   \<and> find (\<lambda>r. ShortCode r = ''000001'') (rows (pgdb world_clicks))
       = Some (example_row\<lparr>ClickCount := 7\<rparr>)
   \<and> pendingClickCounter (rds world_clicks) ''000001'' = 5
   \<and> in_int64 (sint (7 :: int64) + sint (5 :: int64))
   \<and> (\<exists>resp w'. GetURLStats no_stats_faults world_clicks ''000001'' = (Inr resp, w')
         \<and> st_ClickCount resp = 12 \<and> sint (st_ClickCount resp) = 12)"
proof -
  have a: "\<not> statsDbDown no_stats_faults" "\<not> statsCacheDown no_stats_faults"
    by (simp_all add: no_stats_faults_def)
  have b: "find (\<lambda>r. ShortCode r = ''000001'') (rows (pgdb world_clicks))
             = Some (example_row\<lparr>ClickCount := 7\<rparr>)"
    by (simp add: world_clicks_def example_row_def)
  have c: "pendingClickCounter (rds world_clicks) ''000001'' = 5"
    by (simp add: pendingClickCounter_def world_clicks_def clickCountPrefix_def)
  have d: "in_int64 (sint (7 :: int64) + sint (5 :: int64))"
    by (simp add: in_int64_def)
  from stats_total_clicks [OF a(1) b] a b c d
  show ?thesis by auto
qed

section \<open>Properties of the reconciliation scheduler\<close>

lemma ExtractShortCodeFromKey_prefix [simp]:
  "ExtractShortCodeFromKey (clickCountPrefix @ c) = Some c"
  by (simp add: ExtractShortCodeFromKey_def)

lemma filter_map_unchanged:
  "(\<And>x. P (f x) = P x) \<Longrightarrow> (\<And>x. P x \<Longrightarrow> f x = x) \<Longrightarrow> filter P (map f xs) = filter P xs"
  by (induction xs) auto

lemma pgIncrementClickCountBy_fails:
  "pgIncrementClickCountBy d now pg c n = (Some e, pg1) \<Longrightarrow> pg1 = pg"
  by (auto simp: pgIncrementClickCountBy_def split: if_splits)

text \<open>An apply for one short code leaves the rows of every other short code as they are.\<close>

lemma pgIncrementClickCountBy_other_rows:
  assumes "pgIncrementClickCountBy d now pg c n = (e, pg1)" and "c \<noteq> sc"
  shows "filter (\<lambda>r. ShortCode r = sc) (rows pg1) = filter (\<lambda>r. ShortCode r = sc) (rows pg)"
proof (cases e)
  case (Some err)
  with assms show ?thesis
    by (auto dest: pgIncrementClickCountBy_fails)
next
  case None
  with assms have "rows pg1 =
      map (\<lambda>r. if ShortCode r = c then r\<lparr>ClickCount := ClickCount r + n, UpdatedAt := now\<rparr>
                else r) (rows pg)"
    by (auto simp: pgIncrementClickCountBy_def split: if_splits)
  then show ?thesis
    using assms(2) by (simp add: filter_map_unchanged)
qed

text \<open>Whether an apply fails depends only on the rows of its short code.\<close>

lemma pgIncrementClickCountBy_fst_cong:
  assumes "filter (\<lambda>r. ShortCode r = sc) (rows pg) = filter (\<lambda>r. ShortCode r = sc) (rows pg')"
  shows "(fst (pgIncrementClickCountBy d now pg sc n) = None)
       = (fst (pgIncrementClickCountBy d now' pg' sc n) = None)"
proof -
  have ex: "\<And>Q rs. (\<exists>r \<in> set rs. ShortCode r = sc \<and> Q r)
                 = (\<exists>r \<in> set (filter (\<lambda>r. ShortCode r = sc) rs). Q r)"
    by auto
  have a: "(\<exists>r \<in> set (rows pg). ShortCode r = sc \<and> \<not> in_int64 (sint (ClickCount r) + sint n))
         = (\<exists>r \<in> set (rows pg'). ShortCode r = sc \<and> \<not> in_int64 (sint (ClickCount r) + sint n))"
    unfolding ex assms ..
  have "(\<exists>r \<in> set (rows pg). ShortCode r = sc \<and> True)
         = (\<exists>r \<in> set (rows pg'). ShortCode r = sc \<and> True)"
    unfolding ex assms ..
  then have b: "(\<exists>r \<in> set (rows pg). ShortCode r = sc) = (\<exists>r \<in> set (rows pg'). ShortCode r = sc)"
    by simp
  show ?thesis
    using a b by (auto simp: pgIncrementClickCountBy_def)
qed

lemma GetAndResetClickCount_other:
  "GetAndResetClickCount d r c = (res, r1) \<Longrightarrow> c \<noteq> sc \<Longrightarrow>
   pendingClickCounter r1 sc = pendingClickCounter r sc"
  by (auto simp: GetAndResetClickCount_def pendingClickCounter_def Let_def
           split: if_splits option.splits)

lemma restoreClickCount_other:
  "restoreClickCount d r c n = (e, r1) \<Longrightarrow> c \<noteq> sc \<Longrightarrow>
   pendingClickCounter r1 sc = pendingClickCounter r sc"
  by (auto simp: restoreClickCount_def redisIncrementClickCountBy_def INCRBY_def
                 pendingClickCounter_def Let_def
           split: if_splits option.splits)

text \<open>
  One iteration for another short code changes neither the rows nor the pending counter
  of \<open>sc\<close>.
\<close>

lemma syncKey_other:
  assumes "c \<noteq> sc"
  shows "\<exists>w' s' f'. syncKey io now (clickCountPrefix @ c) (w, s, f) = Some (w', s', f')
           \<and> filter (\<lambda>r. ShortCode r = sc) (rows (pgdb w'))
               = filter (\<lambda>r. ShortCode r = sc) (rows (pgdb w))
           \<and> pendingClickCounter (rds w') sc = pendingClickCounter (rds w) sc"
proof -
  obtain n de r1 where d: "GetAndResetClickCount (drainDown io) (rds w) c = ((n, de), r1)"
    by (metis prod.exhaust)
  note p1 = GetAndResetClickCount_other [OF d assms]
  obtain ae pg1 where a: "pgIncrementClickCountBy (applyDown io) now (pgdb w) c n = (ae, pg1)"
    by (metis prod.exhaust)
  note q1 = pgIncrementClickCountBy_other_rows [OF a assms]
  obtain re r2 where r: "restoreClickCount (restoreDown io) r1 c n = (re, r2)"
    by (metis prod.exhaust)
  note p2 = restoreClickCount_other [OF r assms]
  show ?thesis
    using d a r p1 p2 q1
    by (cases de; cases ae; cases re) (simp_all add: syncKey_def)
qed

text \<open>
  The iteration for \<open>sc\<close> itself, when the apply of the pending count fails and the
  restore does not fail in the client: store and pending counter are as before.
\<close>

lemma syncKey_same:
  assumes fail: "fst (pgIncrementClickCountBy (applyDown io) now (pgdb w) sc
                        (pendingClickCounter (rds w) sc)) \<noteq> None"
    and up: "\<not> restoreDown io"
  shows "\<exists>w' s' f'. syncKey io now (clickCountPrefix @ sc) (w, s, f) = Some (w', s', f')
           \<and> pgdb w' = pgdb w
           \<and> pendingClickCounter (rds w') sc = pendingClickCounter (rds w) sc"
proof (cases "drainDown io")
  case True
  then show ?thesis
    by (simp add: syncKey_def GetAndResetClickCount_def Let_def)
next
  case False
  show ?thesis
  proof (cases "counters (rds w) (clickCountPrefix @ sc)")
    case None
    with False show ?thesis
      by (simp add: syncKey_def GetAndResetClickCount_def Let_def)
  next
    case (Some n)
    then have pend: "pendingClickCounter (rds w) sc = n"
      by (simp add: pendingClickCounter_def)
    show ?thesis
    proof (cases "n = 0")
      case True
      with False Some show ?thesis
        by (simp add: syncKey_def GetAndResetClickCount_def pendingClickCounter_def Let_def)
    next
      case nz: False
      from fail pend obtain err pg1 where
        a: "pgIncrementClickCountBy (applyDown io) now (pgdb w) sc n = (Some err, pg1)"
        by (cases "pgIncrementClickCountBy (applyDown io) now (pgdb w) sc n") auto
      then have pg1: "pg1 = pgdb w"
        by (rule pgIncrementClickCountBy_fails)
      have "in_int64 (sint (0 :: int64) + sint n)"
        using sint_range_size [of n] by (simp add: in_int64_def word_size)
      then show ?thesis
        using False Some nz a pg1 up
        by (simp add: syncKey_def GetAndResetClickCount_def restoreClickCount_def
              redisIncrementClickCountBy_def INCRBY_def pendingClickCounter_def Let_def)
    qed
  qed
qed

lemma syncLoop_keeps:
  assumes "\<forall>j < length cs. cs ! j = sc \<longrightarrow>
             fst (pgIncrementClickCountBy (applyDown (io (i + j))) now pg0 sc n0) \<noteq> None
             \<and> \<not> restoreDown (io (i + j))"
    and "filter (\<lambda>r. ShortCode r = sc) (rows (pgdb w)) = filter (\<lambda>r. ShortCode r = sc) (rows pg0)"
    and "pendingClickCounter (rds w) sc = n0"
  shows "\<exists>w' s' f'. syncLoop io now i (map (\<lambda>c. clickCountPrefix @ c) cs) (w, s, f)
                       = Some (w', s', f')
           \<and> filter (\<lambda>r. ShortCode r = sc) (rows (pgdb w'))
               = filter (\<lambda>r. ShortCode r = sc) (rows pg0)
           \<and> pendingClickCounter (rds w') sc = n0"
  using assms
proof (induction cs arbitrary: i w s f)
  case Nil
  then show ?case by simp
next
  case (Cons c cs)
  have rest: "\<forall>j < length cs. cs ! j = sc \<longrightarrow>
             fst (pgIncrementClickCountBy (applyDown (io (Suc i + j))) now pg0 sc n0) \<noteq> None
             \<and> \<not> restoreDown (io (Suc i + j))"
  proof (intro allI impI)
    fix j assume "j < length cs" "cs ! j = sc"
    then have "Suc j < length (c # cs)" "(c # cs) ! Suc j = sc" by simp_all
    with Cons.prems(1) show
      "fst (pgIncrementClickCountBy (applyDown (io (Suc i + j))) now pg0 sc n0) \<noteq> None
       \<and> \<not> restoreDown (io (Suc i + j))"
      by (metis add_Suc_shift)
  qed
  have "\<exists>w1 s1 f1. syncKey (io i) now (clickCountPrefix @ c) (w, s, f) = Some (w1, s1, f1)
           \<and> filter (\<lambda>r. ShortCode r = sc) (rows (pgdb w1))
               = filter (\<lambda>r. ShortCode r = sc) (rows pg0)
           \<and> pendingClickCounter (rds w1) sc = n0"
  proof (cases "c = sc")
    case True
    with Cons.prems(1) have
      "fst (pgIncrementClickCountBy (applyDown (io i)) now pg0 sc n0) \<noteq> None"
      "\<not> restoreDown (io i)"
      by auto
    with Cons.prems(2,3) have
      "fst (pgIncrementClickCountBy (applyDown (io i)) now (pgdb w) sc
              (pendingClickCounter (rds w) sc)) \<noteq> None"
      using pgIncrementClickCountBy_fst_cong [of sc "pgdb w" pg0 "applyDown (io i)" now n0 now]
      by simp
    from syncKey_same [OF this \<open>\<not> restoreDown (io i)\<close>, of s f] True Cons.prems(2,3)
    show ?thesis by auto
  next
    case False
    from syncKey_other [OF False, of "io i" now w s f] Cons.prems(2,3)
    show ?thesis by auto
  qed
  then obtain w1 s1 f1 where
    k: "syncKey (io i) now (clickCountPrefix @ c) (w, s, f) = Some (w1, s1, f1)"
    and inv: "filter (\<lambda>r. ShortCode r = sc) (rows (pgdb w1))
                = filter (\<lambda>r. ShortCode r = sc) (rows pg0)"
      "pendingClickCounter (rds w1) sc = n0"
    by blast
  from Cons.IH [OF rest inv, of s1 f1] k show ?case
    by simp
qed

lemma syncClickCounts_keeps:
  assumes "\<forall>i < length codes. codes ! i = sc \<longrightarrow>
             fst (pgIncrementClickCountBy (applyDown (io i)) now (pgdb w) sc
                    (pendingClickCounter (rds w) sc)) \<noteq> None
             \<and> \<not> restoreDown (io i)"
  shows "\<exists>w'. syncClickCounts (Some codes) io now w = Some w'
           \<and> pendingClickCounter (rds w') sc = pendingClickCounter (rds w) sc"
proof (cases "codes = []")
  case True
  then show ?thesis
    by (simp add: syncClickCounts_def GetAllClickCountKeys_def)
next
  case False
  let ?w = "w\<lparr>logs := logs w @
               [(''Syncing click counts for %d URLs...'',
                 [I (int (length (map (\<lambda>c. clickCountPrefix @ c) codes)))])]\<rparr>"
  have "\<exists>w' s' f'. syncLoop io now 0 (map (\<lambda>c. clickCountPrefix @ c) codes) (?w, 0, 0)
                      = Some (w', s', f')
           \<and> filter (\<lambda>r. ShortCode r = sc) (rows (pgdb w'))
               = filter (\<lambda>r. ShortCode r = sc) (rows (pgdb w))
           \<and> pendingClickCounter (rds w') sc = pendingClickCounter (rds w) sc"
    using assms by (intro syncLoop_keeps) simp_all
  then obtain w' s' f' where
    "syncLoop io now 0 (map (\<lambda>c. clickCountPrefix @ c) codes) (?w, 0, 0) = Some (w', s', f')"
    "pendingClickCounter (rds w') sc = pendingClickCounter (rds w) sc"
    by blast
  with False show ?thesis
    by (simp add: syncClickCounts_def GetAllClickCountKeys_def)
qed

text \<open>
  Claim C1, as stated, fails. The short code \<open>gone\<close> has 5 pending clicks and no row
  in the Durable Store, so the apply reports \<open>ErrURLNotFound\<close>. After the run the
  counter holds 5 again: the drained count was restored, and the log has no line about
  a loss.
\<close>

theorem sync_not_found_is_restored_counterexample:
  "pgIncrementClickCountBy False 1000 (pgdb world_orphan) ''gone'' 5
     = (Some ErrURLNotFound, pgdb world_orphan)
   \<and> map_option (\<lambda>w'. (counters (rds w') ''clicks:gone'', logs w'))
        (syncClickCounts (Some [''gone'']) (\<lambda>i. no_sync_faults) 1000 world_orphan)
     = Some (Some 5,
             [(''Syncing click counts for %d URLs...'', [I 1]),
              (''Failed to sync click count for %s: %v'', [S ''gone'', E ErrURLNotFound]),
              (''Click count sync completed: %d success, %d failed'', [I 0, I 1])])"
  by (simp add: syncClickCounts_def GetAllClickCountKeys_def syncKey_def
        ExtractShortCodeFromKey_def GetAndResetClickCount_def pgIncrementClickCountBy_def
        restoreClickCount_def redisIncrementClickCountBy_def INCRBY_def Let_def
        world_orphan_def empty_redis_def no_sync_faults_def clickCountPrefix_def in_int64_def)

text \<open>
  Claim C1, amended. In the iteration of a reconciliation run for a short code, when the
  drain gave a count other than zero and the apply to the Durable Store fails with any
  error \<open>err\<close>, \<open>ErrURLNotFound\<close> for a missing row included, the restore is called
  with the drained count: the Fast Store after the iteration is the one the restore
  leaves, the Durable Store is unchanged and the iteration counts as failed. A loss is
  logged exactly when the restore itself returns an error. When the restore does not
  fail in the client it succeeds, and the pending counter holds the drained count again.
\<close>

theorem sync_restores_after_any_apply_failure:
  assumes drain: "GetAndResetClickCount (drainDown io) (rds w) sc = ((count, None), r1)"
    and nz: "count \<noteq> 0"
    and appl: "pgIncrementClickCountBy (applyDown io) now (pgdb w) sc count = (Some err, pg1)"
    and restore: "restoreClickCount (restoreDown io) r1 sc count = (rerr, r2)"
  shows "syncKey io now (clickCountPrefix @ sc) (w, s, f) =
           Some (w\<lparr>pgdb := pg1, rds := r2,
                   logs := logs w @
                     [(''Failed to sync click count for %s: %v'', [S sc, E err])] @
                     (case rerr of
                        Some restoreErr \<Rightarrow>
                          [(''Failed to restore click count for %s: %v (data loss: %d clicks)'',
                            [S sc, E restoreErr, I (sint count)])]
                      | None \<Rightarrow> [])\<rparr>,
                 s, f + 1)
       \<and> pg1 = pgdb w
       \<and> (\<not> restoreDown io \<longrightarrow> rerr = None \<and> pendingClickCounter r2 sc = count)
       \<and> (restoreDown io \<longrightarrow> rerr \<noteq> None \<and> r2 = r1)"
proof -
  have key: "syncKey io now (clickCountPrefix @ sc) (w, s, f) =
           Some (w\<lparr>pgdb := pg1, rds := r2,
                   logs := logs w @
                     [(''Failed to sync click count for %s: %v'', [S sc, E err])] @
                     (case rerr of
                        Some restoreErr \<Rightarrow>
                          [(''Failed to restore click count for %s: %v (data loss: %d clicks)'',
                            [S sc, E restoreErr, I (sint count)])]
                      | None \<Rightarrow> [])\<rparr>,
                 s, f + 1)"
    using assms by (simp add: syncKey_def)
  have pg: "pg1 = pgdb w"
    using appl by (rule pgIncrementClickCountBy_fails)
  from drain nz have gone: "\<not> drainDown io" "counters r1 (clickCountPrefix @ sc) = None"
    by (auto simp: GetAndResetClickCount_def Let_def split: if_splits option.splits)
  have "in_int64 (sint (0 :: int64) + sint count)"
    using sint_range_size [of count] by (simp add: in_int64_def word_size)
  with gone restore
  have up: "\<not> restoreDown io \<longrightarrow> rerr = None \<and> pendingClickCounter r2 sc = count"
    by (auto simp: restoreClickCount_def redisIncrementClickCountBy_def INCRBY_def
          pendingClickCounter_def Let_def)
  from restore have down: "restoreDown io \<longrightarrow> rerr \<noteq> None \<and> r2 = r1"
    by (auto simp: restoreClickCount_def redisIncrementClickCountBy_def Let_def)
  from key pg up down show ?thesis by blast
qed

theorem sync_restores_after_any_apply_failure_witness:
  "GetAndResetClickCount (drainDown no_sync_faults) (rds world_orphan) ''gone''
     = ((5, None), empty_redis)
   \<and> (5 :: int64) \<noteq> 0
   \<and> pgIncrementClickCountBy (applyDown no_sync_faults) 1000 (pgdb world_orphan) ''gone'' 5
       = (Some ErrURLNotFound, pgdb world_orphan)
   \<and> restoreClickCount (restoreDown no_sync_faults) empty_redis ''gone'' 5
       = (None, rds world_orphan)
   \<and> \<not> restoreDown no_sync_faults
   \<and> syncKey no_sync_faults 1000 (clickCountPrefix @ ''gone'') (world_orphan, 0, 0)
       = Some (world_orphan\<lparr>logs := [(''Failed to sync click count for %s: %v'',
                                       [S ''gone'', E ErrURLNotFound])]\<rparr>, 0, 1)
   \<and> pendingClickCounter (rds world_orphan) ''gone'' = 5"
proof -
  have d: "GetAndResetClickCount (drainDown no_sync_faults) (rds world_orphan) ''gone''
             = ((5, None), empty_redis)"
    by (simp add: GetAndResetClickCount_def world_orphan_def empty_redis_def no_sync_faults_def
          clickCountPrefix_def Let_def)
  have n: "(5 :: int64) \<noteq> 0" by simp
  have a: "pgIncrementClickCountBy (applyDown no_sync_faults) 1000 (pgdb world_orphan) ''gone'' 5
             = (Some ErrURLNotFound, pgdb world_orphan)"
    by (simp add: pgIncrementClickCountBy_def world_orphan_def no_sync_faults_def)
  have r: "restoreClickCount (restoreDown no_sync_faults) empty_redis ''gone'' 5
             = (None, rds world_orphan)"
    by (simp add: restoreClickCount_def redisIncrementClickCountBy_def INCRBY_def Let_def
          world_orphan_def empty_redis_def no_sync_faults_def clickCountPrefix_def in_int64_def)
  have u: "\<not> restoreDown no_sync_faults"
    by (simp add: no_sync_faults_def)
  have w: "world_orphan\<lparr>pgdb := pgdb world_orphan, rds := rds world_orphan,
                        logs := logs world_orphan @
                          [(''Failed to sync click count for %s: %v'',
                            [S ''gone'', E ErrURLNotFound])] @ []\<rparr>
           = world_orphan\<lparr>logs := [(''Failed to sync click count for %s: %v'',
                                       [S ''gone'', E ErrURLNotFound])]\<rparr>"
    by (simp add: world_orphan_def)
  from sync_restores_after_any_apply_failure [OF d n a r, of 0 0] d n a r u w
  show ?thesis by simp
qed

text \<open>
  Claim C2. Take a reconciliation run over the scanned short codes \<open>codes\<close> and a
  short code \<open>sc\<close>. If at every iteration for \<open>sc\<close> the apply of its pending count
  to the Durable Store fails (for whatever reason: the driver, the range of the column,
  or a missing row) and the restore does not fail in the client, then the run ends and
  the Pending Click Counter of \<open>sc\<close> holds its value from before the run, so at least
  that value: no count is lost. The run is sequential; no request increments the counter
  between the drain and the restore.
\<close>

theorem sync_apply_failure_keeps_pending_count:
  assumes "\<forall>i < length codes. codes ! i = sc \<longrightarrow>
             fst (pgIncrementClickCountBy (applyDown (io i)) now (pgdb w) sc
                    (pendingClickCounter (rds w) sc)) \<noteq> None
             \<and> \<not> restoreDown (io i)"
  shows "\<exists>w'. syncClickCounts (Some codes) io now w = Some w'
           \<and> pendingClickCounter (rds w') sc = pendingClickCounter (rds w) sc
           \<and> sint (pendingClickCounter (rds w) sc) \<le> sint (pendingClickCounter (rds w') sc)"
  using syncClickCounts_keeps [OF assms] by auto

theorem sync_apply_failure_keeps_pending_count_witness:
  "fst (pgIncrementClickCountBy (applyDown apply_fails) 1000 (pgdb world_clicks)
          ''000001'' (pendingClickCounter (rds world_clicks) ''000001'')) \<noteq> None
   \<and> \<not> restoreDown apply_fails
   \<and> pendingClickCounter (rds world_clicks) ''000001'' = 5
   \<and> (\<exists>w'. syncClickCounts (Some [''000001'']) (\<lambda>i. apply_fails) 1000 world_clicks = Some w'
         \<and> pendingClickCounter (rds w') ''000001'' = 5)"
proof -
  have a: "fst (pgIncrementClickCountBy (applyDown apply_fails) 1000 (pgdb world_clicks)
          ''000001'' (pendingClickCounter (rds world_clicks) ''000001'')) \<noteq> None"
    "\<not> restoreDown apply_fails"
    by (simp_all add: apply_fails_def pgIncrementClickCountBy_def)
  then have h: "\<forall>i < length [''000001'']. [''000001''] ! i = ''000001'' \<longrightarrow>
       fst (pgIncrementClickCountBy (applyDown ((\<lambda>i. apply_fails) i)) 1000 (pgdb world_clicks)
              ''000001'' (pendingClickCounter (rds world_clicks) ''000001'')) \<noteq> None
       \<and> \<not> restoreDown ((\<lambda>i. apply_fails) i)"
    by simp
  have p: "pendingClickCounter (rds world_clicks) ''000001'' = 5"
    by (simp add: pendingClickCounter_def world_clicks_def clickCountPrefix_def)
  from sync_apply_failure_keeps_pending_count [OF h] a p
  show ?thesis by auto
qed

section \<open>Properties of the rate limiter\<close>

lemma float64_nonneg:
  assumes "0 \<le> n"
  shows "0 \<le> float64 n"
proof -
  have q: "0 \<le> n div 2 ^ float64Shift n"
    using assms by (simp add: pos_imp_zdiv_nonneg_iff)
  then have "0 \<le> n div 2 ^ float64Shift n * 2 ^ float64Shift n"
    and "0 \<le> (n div 2 ^ float64Shift n + 1) * 2 ^ float64Shift n"
    by simp_all
  then show ?thesis
    using assms by (auto simp: float64_def Let_def sgn_if)
qed

lemma example_window_start:
  "wrap64 (1700000000000000000 - duration example_limiter) = 1699999940000000000"
  by (simp add: wrap64_def example_limiter_def)

lemma example_prune:
  "pruneAndCount example_limiter False 1700000000000000000 ''ratelimit:10.0.0.1'' window_redis
     = Inr (window_redis_pruned, 1)"
  by (simp add: pruneAndCount_def ZREMRANGEBYSCORE_def ZCARD_def Let_def wrap64_def
        example_limiter_def window_redis_def window_redis_pruned_def empty_redis_def
        formatInt64_def formatDigits.simps float64_def float64Shift.simps)

lemma example_prune_strict:
  "pruneAndCount strict_limiter False 1700000000000000000 ''ratelimit:10.0.0.1'' window_redis
     = Inr (window_redis_pruned, 1)"
  by (simp add: pruneAndCount_def ZREMRANGEBYSCORE_def ZCARD_def Let_def wrap64_def
        strict_limiter_def window_redis_def window_redis_pruned_def empty_redis_def
        formatInt64_def formatDigits.simps float64_def float64Shift.simps)

lemma example_remaining: "formatInt (max 0 (requests example_limiter - 1 - 1)) = ''1''"
  by (simp add: formatInt_def formatInt64_def formatDigits.simps example_limiter_def char_of_def)

lemma ZADD_member:
  "(member, score) \<in> set (zsetEntries (ZADD r key score member) key)"
  by (auto simp: ZADD_def zsetEntries_def Let_def image_iff)

lemma recordRequest_ok:
  assumes "0 < duration rl"
  shows "snd (recordRequest rl False now key r) = r2 \<Longrightarrow>
         (now, float64 now) \<in> set (zsetEntries r2 key) \<and> ttls r2 key = Some (duration rl)"
  using assms ZADD_member [of now "float64 now" r key]
  by (auto simp: recordRequest_def EXPIRE_def ZADD_def zsetEntries_def Let_def)

text \<open>
  Claim C3, as stated, fails at the boundary. At the clock reading 1700000000000000000
  with a window of one minute, \<open>windowStart\<close> is 1699999940000000000. The entry with
  exactly that timestamp is removed and one entry is counted, where the claim keeps it
  and counts two.
\<close>

theorem prune_removes_window_start_counterexample:
  "wrap64 (1700000000000000000 - duration example_limiter) = 1699999940000000000
   \<and> zsets window_redis ''ratelimit:10.0.0.1''
       = Some [(1699999940000000000, 1699999940000000000),
               (1699999950000000000, 1699999950000000000)]
   \<and> pruneAndCount example_limiter False 1700000000000000000 ''ratelimit:10.0.0.1'' window_redis
       = Inr (window_redis_pruned, 1)
   \<and> zsets window_redis_pruned ''ratelimit:10.0.0.1''
       = Some [(1699999950000000000, 1699999950000000000)]"
  using example_prune example_window_start
  by (simp add: window_redis_def window_redis_pruned_def)

text \<open>
  Claim C3, amended. On every rate-limit evaluation whose first pipeline succeeds, the
  limiter computes \<open>windowStart = now - windowDuration\<close> (in 64-bit arithmetic) and
  removes exactly the entries whose score lies between 0 and \<open>windowStart\<close>, both
  bounds included, the scores and the bound being 64-bit floating-point numbers; so an
  entry recorded at \<open>windowStart\<close> itself is removed, not kept. It then counts the
  remaining entries.
\<close>

theorem prune_is_inclusive_then_counts:
  assumes "pruneAndCount rl down now key r = Inr (r1, count)"
  shows "zsetEntries r1 key =
           filter (\<lambda>(member, score).
                     \<not> (0 \<le> score \<and> score \<le> float64 (wrap64 (now - duration rl))))
             (zsetEntries r key)
       \<and> count = int (length (zsetEntries r1 key))
       \<and> (in_int64 (now - duration rl) \<longrightarrow> wrap64 (now - duration rl) = now - duration rl)
       \<and> (0 \<le> wrap64 (now - duration rl) \<longrightarrow>
            (wrap64 (now - duration rl), float64 (wrap64 (now - duration rl)))
              \<notin> set (zsetEntries r1 key))"
proof -
  let ?ws = "wrap64 (now - duration rl)"
  from assms have r1: "r1 = ZREMRANGEBYSCORE r key 0 (float64 ?ws)" and c: "count = ZCARD r1 key"
    by (auto simp: pruneAndCount_def Let_def split: if_splits)
  have e: "zsetEntries r1 key =
           filter (\<lambda>(member, score). \<not> (0 \<le> score \<and> score \<le> float64 ?ws)) (zsetEntries r key)"
    unfolding r1
    by (cases "zsets r key") (simp_all add: ZREMRANGEBYSCORE_def zsetEntries_def Let_def)
  have n: "count = int (length (zsetEntries r1 key))"
    unfolding c by (simp add: ZCARD_def zsetEntries_def split: option.splits)
  have i: "in_int64 (now - duration rl) \<longrightarrow> ?ws = now - duration rl"
    by (simp add: in_int64_def wrap64_id)
  have "0 \<le> ?ws \<longrightarrow> (?ws, float64 ?ws) \<notin> set (zsetEntries r1 key)"
    unfolding e using float64_nonneg [of ?ws] by simp
  with e n i show ?thesis by blast
qed

theorem prune_is_inclusive_then_counts_witness:
  "pruneAndCount example_limiter False 1700000000000000000 ''ratelimit:10.0.0.1'' window_redis
     = Inr (window_redis_pruned, 1)
   \<and> zsetEntries window_redis ''ratelimit:10.0.0.1''
       = [(1699999940000000000, 1699999940000000000), (1699999950000000000, 1699999950000000000)]
   \<and> zsetEntries window_redis_pruned ''ratelimit:10.0.0.1''
       = [(1699999950000000000, 1699999950000000000)]
   \<and> in_int64 (1700000000000000000 - duration example_limiter)
   \<and> (0::int) \<le> wrap64 (1700000000000000000 - duration example_limiter)
   \<and> (wrap64 (1700000000000000000 - duration example_limiter),
       float64 (wrap64 (1700000000000000000 - duration example_limiter)))
        \<notin> set (zsetEntries window_redis_pruned ''ratelimit:10.0.0.1'')"
proof -
  have a: "zsetEntries window_redis ''ratelimit:10.0.0.1''
       = [(1699999940000000000, 1699999940000000000), (1699999950000000000, 1699999950000000000)]"
    by (simp add: zsetEntries_def window_redis_def)
  have b: "zsetEntries window_redis_pruned ''ratelimit:10.0.0.1''
       = [(1699999950000000000, 1699999950000000000)]"
    by (simp add: zsetEntries_def window_redis_pruned_def)
  have c: "(0::int) \<le> wrap64 (1700000000000000000 - duration example_limiter)"
    by (simp add: example_window_start)
  have d: "in_int64 (1700000000000000000 - duration example_limiter)"
    by (simp add: in_int64_def example_limiter_def)
  from prune_is_inclusive_then_counts [OF example_prune] c
  have "(wrap64 (1700000000000000000 - duration example_limiter),
         float64 (wrap64 (1700000000000000000 - duration example_limiter)))
          \<notin> set (zsetEntries window_redis_pruned ''ratelimit:10.0.0.1'')"
    by blast
  with example_prune a b c d show ?thesis by blast
qed

text \<open>
  Claim C8. Let the first pipeline of an evaluation succeed with the pruned store
  \<open>r1\<close> and the count \<open>count\<close>. If \<open>count \<ge> limit\<close>, the request is aborted with
  status 429, the header \<open>X-RateLimit-Remaining\<close> is \<open>0\<close>, and the store is left as
  pruned: the request is not recorded. If \<open>count < limit\<close>, the request is passed on,
  the header is \<open>limit - count - 1\<close> floored at zero, and, when the second pipeline does
  not fail and the window is positive, the store holds the entry for \<open>now\<close> and the
  time-to-live of the key is the window.
\<close>

theorem rate_limit_decision:
  assumes pre: "pruneAndCount rl (precheckDown io) now (''ratelimit:'' @ ip) r = Inr (r1, count)"
    and res: "Middleware rl io now resetNow ip path r = (resp, r', lg)"
  shows "(count \<ge> requests rl \<longrightarrow>
            outcome resp = AbortWithStatusJSON 429
                             [(''error'', ''rate limit exceeded''),
                              (''message'', ''Too many requests. Please try again later.'')]
          \<and> map_of (headers resp) ''X-RateLimit-Remaining'' = Some ''0''
          \<and> r' = r1)
       \<and> (count < requests rl \<longrightarrow>
            outcome resp = Next
          \<and> map_of (headers resp) ''X-RateLimit-Remaining''
              = Some (formatInt (max 0 (requests rl - count - 1)))
          \<and> (\<not> recordDown io \<and> 0 < duration rl \<longrightarrow>
                (now, float64 now) \<in> set (zsetEntries r' (''ratelimit:'' @ ip))
              \<and> ttls r' (''ratelimit:'' @ ip) = Some (duration rl)))"
proof (cases "count \<ge> requests rl")
  case True
  with pre res show ?thesis
    by (auto simp: Middleware_def Let_def)
next
  case False
  obtain rerr r2 where
    rec: "recordRequest rl (recordDown io) now (''ratelimit:'' @ ip) r1 = (rerr, r2)"
    by (metis prod.exhaust)
  with pre res False have r': "r' = r2" and o: "outcome resp = Next"
    and h: "map_of (headers resp) ''X-RateLimit-Remaining''
              = Some (formatInt (max 0 (requests rl - count - 1)))"
    by (auto simp: Middleware_def Let_def max_def)
  have "\<not> recordDown io \<and> 0 < duration rl \<longrightarrow>
                (now, float64 now) \<in> set (zsetEntries r' (''ratelimit:'' @ ip))
              \<and> ttls r' (''ratelimit:'' @ ip) = Some (duration rl)"
    using rec r' recordRequest_ok [of rl now "''ratelimit:'' @ ip" r1 r2] by auto
  with False o h show ?thesis by auto
qed

theorem rate_limit_decision_witness:
  "pruneAndCount example_limiter (precheckDown no_rl_faults) 1700000000000000000
       ''ratelimit:10.0.0.1'' window_redis = Inr (window_redis_pruned, 1)
   \<and> (1::int) < requests example_limiter \<and> \<not> recordDown no_rl_faults
   \<and> 0 < duration example_limiter
   \<and> outcome (fst (Middleware example_limiter no_rl_faults 1700000000000000000
                      1700000000000000500 ''10.0.0.1'' ''/000001'' window_redis)) = Next
   \<and> map_of (headers (fst (Middleware example_limiter no_rl_faults 1700000000000000000
                      1700000000000000500 ''10.0.0.1'' ''/000001'' window_redis)))
        ''X-RateLimit-Remaining'' = Some ''1''
   \<and> (1700000000000000000, float64 1700000000000000000)
        \<in> set (zsetEntries (fst (snd (Middleware example_limiter no_rl_faults 1700000000000000000
                      1700000000000000500 ''10.0.0.1'' ''/000001'' window_redis)))
                  ''ratelimit:10.0.0.1'')
   \<and> ttls (fst (snd (Middleware example_limiter no_rl_faults 1700000000000000000
                      1700000000000000500 ''10.0.0.1'' ''/000001'' window_redis)))
        ''ratelimit:10.0.0.1'' = Some 60000000000
   \<and> pruneAndCount strict_limiter (precheckDown no_rl_faults) 1700000000000000000
       ''ratelimit:10.0.0.1'' window_redis = Inr (window_redis_pruned, 1)
   \<and> (1::int) \<ge> requests strict_limiter
   \<and> map_of (headers (fst (Middleware strict_limiter no_rl_faults 1700000000000000000
                      1700000000000000500 ''10.0.0.1'' ''/000001'' window_redis)))
        ''X-RateLimit-Remaining'' = Some ''0''
   \<and> fst (snd (Middleware strict_limiter no_rl_faults 1700000000000000000
                      1700000000000000500 ''10.0.0.1'' ''/000001'' window_redis))
       = window_redis_pruned"
proof -
  have p1: "pruneAndCount example_limiter (precheckDown no_rl_faults) 1700000000000000000
       (''ratelimit:'' @ ''10.0.0.1'') window_redis = Inr (window_redis_pruned, 1)"
    using example_prune by (simp add: no_rl_faults_def)
  have p2: "pruneAndCount strict_limiter (precheckDown no_rl_faults) 1700000000000000000
       (''ratelimit:'' @ ''10.0.0.1'') window_redis = Inr (window_redis_pruned, 1)"
    using example_prune_strict by (simp add: no_rl_faults_def)
  have c: "(1::int) < requests example_limiter" "\<not> recordDown no_rl_faults"
    "0 < duration example_limiter" "(1::int) \<ge> requests strict_limiter"
    "duration example_limiter = 60000000000"
    by (simp_all add: example_limiter_def strict_limiter_def no_rl_faults_def)
  obtain resp1 ra la where m1: "Middleware example_limiter no_rl_faults 1700000000000000000
             1700000000000000500 ''10.0.0.1'' ''/000001'' window_redis = (resp1, ra, la)"
    by (metis prod_cases3)
  obtain resp2 rb lb where m2: "Middleware strict_limiter no_rl_faults 1700000000000000000
             1700000000000000500 ''10.0.0.1'' ''/000001'' window_redis = (resp2, rb, lb)"
    by (metis prod_cases3)
  from rate_limit_decision [OF p1 m1] rate_limit_decision [OF p2 m2] c p1 p2 m1 m2
    example_remaining
  show ?thesis by simp
qed

text \<open>
  Claim C9. The limiter fails open. When the first pipeline (prune and count) fails,
  the request is passed on with no header set and no status, the store is untouched and
  the error is only logged. When the first pipeline succeeds with a count below the
  limit and the second pipeline (record) fails, the request is passed on as well, the
  store stays as pruned and the error is only logged.
\<close>

theorem rate_limit_fail_open:
  assumes pre: "precheckDown io1"
    and rec: "pruneAndCount rl (precheckDown io2) now (''ratelimit:'' @ ip) rb = Inr (r1, count)"
      "count < requests rl" "recordDown io2"
  shows "Middleware rl io1 now resetNow ip path ra =
           (\<lparr>headers = [], outcome = Next\<rparr>, ra,
            [(''rate_limit redis error (precheck): ip=%s path=%s err=%v'',
              [S ip, S path, E (DriverError ''connection'')])])
       \<and> outcome (fst (Middleware rl io2 now resetNow ip path rb)) = Next
       \<and> snd (Middleware rl io2 now resetNow ip path rb) =
           (r1, [(''rate_limit redis error (record): ip=%s path=%s err=%v'',
                  [S ip, S path, E (DriverError ''connection'')])])"
  using assms
  by (auto simp: Middleware_def pruneAndCount_def recordRequest_def Let_def split: if_splits)

theorem rate_limit_fail_open_witness:
  "precheckDown redis_down
   \<and> pruneAndCount example_limiter (precheckDown record_fails) 1700000000000000000
       (''ratelimit:'' @ ''10.0.0.1'') window_redis = Inr (window_redis_pruned, 1)
   \<and> (1::int) < requests example_limiter \<and> recordDown record_fails
   \<and> outcome (fst (Middleware example_limiter redis_down 1700000000000000000
                      1700000000000000500 ''10.0.0.1'' ''/000001'' window_redis)) = Next
   \<and> fst (snd (Middleware example_limiter redis_down 1700000000000000000
                      1700000000000000500 ''10.0.0.1'' ''/000001'' window_redis)) = window_redis
   \<and> outcome (fst (Middleware example_limiter record_fails 1700000000000000000
                      1700000000000000500 ''10.0.0.1'' ''/000001'' window_redis)) = Next
   \<and> fst (snd (Middleware example_limiter record_fails 1700000000000000000
                      1700000000000000500 ''10.0.0.1'' ''/000001'' window_redis))
       = window_redis_pruned"
proof -
  have a: "precheckDown redis_down" "recordDown record_fails"
    "(1::int) < requests example_limiter"
    by (simp_all add: redis_down_def record_fails_def example_limiter_def)
  have p: "pruneAndCount example_limiter (precheckDown record_fails) 1700000000000000000
       (''ratelimit:'' @ ''10.0.0.1'') window_redis = Inr (window_redis_pruned, 1)"
    using example_prune by (simp add: record_fails_def)
  from rate_limit_fail_open [OF a(1) p a(3) a(2), of 1700000000000000500 "''/000001''" window_redis]
    a p
  show ?thesis by simp
qed

end
